theory Spec2Isabelle
  imports Complex_Main
begin

section \<open>Compression presets (compress-helper)\<close>

text \<open>
  The helper module of the compress tool fixes three presets. JavaScript numbers
  are modelled as rationals; the decimal literals of the source are kept as they
  are written.
\<close>

datatype CompressionMode = Extreme | Normal | Less

datatype ImageFormat = Jpeg | Png

record CompressionSettings =
  imageQuality :: rat
  scale :: rat
  format :: ImageFormat

fun compressionSettings :: "CompressionMode \<Rightarrow> CompressionSettings" where
  "compressionSettings Extreme = \<lparr>imageQuality = 0.3, scale = 0.5, format = Jpeg\<rparr>"
| "compressionSettings Normal = \<lparr>imageQuality = 0.6, scale = 0.7, format = Jpeg\<rparr>"
| "compressionSettings Less = \<lparr>imageQuality = 0.85, scale = 0.9, format = Jpeg\<rparr>"

text \<open>The option cards of the compress route repeat the quality of each preset.\<close>

record CompressionOption =
  opt_mode :: CompressionMode
  opt_label :: string
  opt_description :: string
  opt_quality :: string
  opt_compression :: string
  opt_imageQuality :: rat

definition compressionOptions :: "CompressionOption list" where
  "compressionOptions =
    [\<lparr>opt_mode = Extreme, opt_label = ''Extreme'', opt_description = ''Maximum compression'',
      opt_quality = ''Lower quality'', opt_compression = ''High compression'',
      opt_imageQuality = 0.3\<rparr>,
     \<lparr>opt_mode = Normal, opt_label = ''Normal'', opt_description = ''Balanced compression'',
      opt_quality = ''Good quality'', opt_compression = ''Good compression'',
      opt_imageQuality = 0.6\<rparr>,
     \<lparr>opt_mode = Less, opt_label = ''Less'', opt_description = ''Light compression'',
      opt_quality = ''High quality'', opt_compression = ''Less compression'',
      opt_imageQuality = 0.85\<rparr>]"

section \<open>The collaborators: pdf.js, the canvas, pdf-lib\<close>

text \<open>
  The libraries are opaque. Each call of the source that may reject, throw or
  return null is an oracle of the model, so that every failure the source can see
  is a branch. A page proxy carries the canvas that \<open>renderAndCompressPage\<close>
  creates for it: \<open>getContext\<close> tells whether the 2d context is non-null,
  \<open>render\<close> whether the render promise resolves, \<open>toBlob\<close> the blob handed
  to the callback (\<open>None\<close> for null).
\<close>

type_synonym bytes = "nat list"

record PageViewport =
  width :: rat
  height :: rat

record PDFPageProxy =
  getViewport :: "rat \<Rightarrow> PageViewport"
  getContext :: bool
  render :: "PageViewport \<Rightarrow> bool"
  toBlob :: "PageViewport \<Rightarrow> string \<Rightarrow> rat \<Rightarrow> bytes option"

record PDFDocumentProxy =
  numPages :: nat
  getPage :: "nat \<Rightarrow> PDFPageProxy option"

text \<open>
  A file of the compress tool: \<open>getDocument\<close> is what reading the file and
  opening it with pdf.js yields, \<open>None\<close> when either promise rejects.
\<close>

record File =
  file_name :: string
  file_size :: nat
  getDocument :: "PDFDocumentProxy option"

datatype error =
    LoadFailed
  | GetPageFailed
  | NoCanvasContext
  | RenderFailed
  | NoBlob
  | EmbedFailed
  | CallbackThrew
  | SaveFailed

datatype PDFImage = JpgImage bytes | PngImage bytes

record DrawOptions =
  draw_x :: rat
  draw_y :: rat
  draw_width :: rat
  draw_height :: rat

datatype PageOp = DrawImage PDFImage DrawOptions

text \<open>
  A pdf-lib document is the list of its pages; a page has a size and the
  operations drawn on it. The type of operations is a parameter: the compress
  tool draws images, the merge tool copies pages whose content it never reads.
\<close>

record 'c PDFPage =
  page_size :: "rat \<times> rat"
  page_ops :: "'c list"

record SaveOptions =
  useObjectStreams :: bool
  addDefaultPage :: bool

record 'c SavedPDF =
  saved_pages :: "'c PDFPage list"
  objectStreams :: bool

record 'c PDFLib =
  embedJpg :: "bytes \<Rightarrow> bool"
  embedPng :: "bytes \<Rightarrow> bool"
  save_resolves :: "'c PDFPage list \<Rightarrow> bool"
  byteLength :: "'c SavedPDF \<Rightarrow> nat"

definition addPage :: "'c PDFPage list \<Rightarrow> rat \<times> rat \<Rightarrow> 'c PDFPage list" where
  "addPage doc sz = doc @ [\<lparr>page_size = sz, page_ops = []\<rparr>]"

definition drawImage :: "PageOp PDFPage \<Rightarrow> PDFImage \<Rightarrow> DrawOptions \<Rightarrow> PageOp PDFPage" where
  "drawImage pg img opts = pg\<lparr>page_ops := page_ops pg @ [DrawImage img opts]\<rparr>"

text \<open>
  pdf-lib's \<open>save\<close>: both options default to true; a document without pages
  gets one blank A4 page first when \<open>addDefaultPage\<close> is set. The serialized
  bytes are represented by what was serialized.
\<close>

definition defaultSaveOptions :: SaveOptions where
  "defaultSaveOptions = \<lparr>useObjectStreams = True, addDefaultPage = True\<rparr>"

definition prepareForSave :: "SaveOptions \<Rightarrow> 'c PDFPage list \<Rightarrow> 'c PDFPage list" where
  "prepareForSave opts doc =
    (if addDefaultPage opts \<and> length doc = 0 then addPage doc (595.28, 841.89) else doc)"

definition save :: "'c PDFLib \<Rightarrow> SaveOptions \<Rightarrow> 'c PDFPage list \<Rightarrow> error + 'c SavedPDF" where
  "save lib opts doc =
    (let doc' = prepareForSave opts doc
     in if save_resolves lib doc'
        then Inr \<lparr>saved_pages = doc', objectStreams = useObjectStreams opts\<rparr>
        else Inl SaveFailed)"

section \<open>renderAndCompressPage\<close>

definition renderAndCompressPage ::
  "PDFPageProxy \<Rightarrow> CompressionSettings \<Rightarrow> error + (bytes \<times> rat \<times> rat)" where
  "renderAndCompressPage page settings =
    (let viewport = getViewport page (scale settings) in
     if \<not> getContext page then Inl NoCanvasContext
     else if \<not> render page viewport then Inl RenderFailed
     else (case toBlob page viewport
                  (if format settings = Jpeg then ''image/jpeg'' else ''image/png'')
                  (imageQuality settings) of
             None \<Rightarrow> Inl NoBlob
           | Some blob \<Rightarrow> Inr (blob, width viewport, height viewport)))"

section \<open>compressPDF\<close>

text \<open>
  The observable calls of one run, in the order they happen. The progress
  callback acts on a state of the caller, threaded through the loop; it returns
  \<open>None\<close> when it throws.
\<close>

datatype event =
    EvEmbedJpg bytes
  | EvEmbedPng bytes
  | EvProgress nat nat
  | EvConsoleError nat error
  | EvSave SaveOptions

type_synonym 's progress_cb = "nat \<Rightarrow> nat \<Rightarrow> 's \<Rightarrow> 's option"

record 's loop_state =
  newPdfDoc :: "PageOp PDFPage list"
  trace :: "event list"
  cb :: 's

text \<open>The body of the \<open>try\<close> block: the error thrown, if any, and the state reached.\<close>

definition try_page ::
  "PageOp PDFLib \<Rightarrow> CompressionSettings \<Rightarrow> 's progress_cb option \<Rightarrow> PDFDocumentProxy \<Rightarrow>
   nat \<Rightarrow> nat \<Rightarrow> 's loop_state \<Rightarrow> error option \<times> 's loop_state" where
  "try_page lib settings onProgress pdfDocument totalPages pageNum st =
    (case getPage pdfDocument pageNum of
       None \<Rightarrow> (Some GetPageFailed, st)
     | Some page \<Rightarrow>
        (case renderAndCompressPage page settings of
           Inl e \<Rightarrow> (Some e, st)
         | Inr (imageBytes, w, h) \<Rightarrow>
            (let (ev, embedded) =
                   (if format settings = Jpeg
                    then (EvEmbedJpg imageBytes,
                          if embedJpg lib imageBytes then Some (JpgImage imageBytes) else None)
                    else (EvEmbedPng imageBytes,
                          if embedPng lib imageBytes then Some (PngImage imageBytes) else None));
                 st1 = st\<lparr>trace := trace st @ [ev]\<rparr>
             in case embedded of
                  None \<Rightarrow> (Some EmbedFailed, st1)
                | Some img \<Rightarrow>
                   (let doc1 = addPage (newPdfDoc st1) (w, h);
                        newPage = last doc1;
                        doc2 = doc1[length doc1 - 1 :=
                                 drawImage newPage img
                                   \<lparr>draw_x = 0, draw_y = 0, draw_width = w, draw_height = h\<rparr>];
                        st2 = st1\<lparr>newPdfDoc := doc2\<rparr>
                    in case onProgress of
                         None \<Rightarrow> (None, st2)
                       | Some f \<Rightarrow>
                          (let st3 = st2\<lparr>trace := trace st2 @ [EvProgress pageNum totalPages]\<rparr>
                           in case f pageNum totalPages (cb st3) of
                                None \<Rightarrow> (Some CallbackThrew, st3)
                              | Some s' \<Rightarrow> (None, st3\<lparr>cb := s'\<rparr>))))))"

text \<open>One iteration: the \<open>catch\<close> logs the error and the loop goes on.\<close>

definition process_page ::
  "PageOp PDFLib \<Rightarrow> CompressionSettings \<Rightarrow> 's progress_cb option \<Rightarrow> PDFDocumentProxy \<Rightarrow>
   nat \<Rightarrow> nat \<Rightarrow> 's loop_state \<Rightarrow> 's loop_state" where
  "process_page lib settings onProgress pdfDocument totalPages pageNum st =
    (case try_page lib settings onProgress pdfDocument totalPages pageNum st of
       (None, st') \<Rightarrow> st'
     | (Some e, st') \<Rightarrow> st'\<lparr>trace := trace st' @ [EvConsoleError pageNum e]\<rparr>)"

function page_loop ::
  "PageOp PDFLib \<Rightarrow> CompressionSettings \<Rightarrow> 's progress_cb option \<Rightarrow> PDFDocumentProxy \<Rightarrow>
   nat \<Rightarrow> nat \<Rightarrow> 's loop_state \<Rightarrow> 's loop_state" where
  "page_loop lib settings onProgress pdfDocument totalPages pageNum st =
    (if pageNum \<le> totalPages
     then page_loop lib settings onProgress pdfDocument totalPages (Suc pageNum)
            (process_page lib settings onProgress pdfDocument totalPages pageNum st)
     else st)"
  by pat_completeness auto
termination
  by (relation "measure (\<lambda>(lib, settings, onProgress, pdfDocument, totalPages, pageNum, st).
        Suc totalPages - pageNum)") auto

declare page_loop.simps [simp del]

record 's compress_result =
  result :: "error + PageOp SavedPDF"
  cb_after :: 's
  events :: "event list"

definition compressPDF_with ::
  "PageOp PDFLib \<Rightarrow> File \<Rightarrow> CompressionSettings \<Rightarrow> 's progress_cb option \<Rightarrow> 's \<Rightarrow>
   's compress_result" where
  "compressPDF_with lib pdfFile settings onProgress s =
    (case getDocument pdfFile of
       None \<Rightarrow> \<lparr>result = Inl LoadFailed, cb_after = s, events = []\<rparr>
     | Some pdfDocument \<Rightarrow>
        (let totalPages = numPages pdfDocument;
             st = page_loop lib settings onProgress pdfDocument totalPages 1
                    \<lparr>newPdfDoc = [], trace = [], cb = s\<rparr>;
             opts = \<lparr>useObjectStreams = True, addDefaultPage = False\<rparr>
         in \<lparr>result = save lib opts (newPdfDoc st),
             cb_after = cb st,
             events = trace st @ [EvSave opts]\<rparr>))"

text \<open>
  \<open>compressPDF\<close> proper looks the settings up in the preset table. (The mode
  defaults to \<open>Normal\<close> in the source; the route always passes it.)
\<close>

definition compressPDF ::
  "PageOp PDFLib \<Rightarrow> File \<Rightarrow> CompressionMode \<Rightarrow> 's progress_cb option \<Rightarrow> 's \<Rightarrow>
   's compress_result" where
  "compressPDF lib pdfFile mode onProgress s =
    compressPDF_with lib pdfFile (compressionSettings mode) onProgress s"

text \<open>What the run observes: the progress calls of a trace, in order.\<close>

fun progress_of :: "event \<Rightarrow> (nat \<times> nat) option" where
  "progress_of (EvProgress current totalPages) = Some (current, totalPages)"
| "progress_of _ = None"

definition progress_calls :: "event list \<Rightarrow> (nat \<times> nat) list" where
  "progress_calls evs = List.map_filter progress_of evs"

fun is_save :: "event \<Rightarrow> bool" where
  "is_save (EvSave opts) = True"
| "is_save _ = False"

fun is_embedPng :: "event \<Rightarrow> bool" where
  "is_embedPng (EvEmbedPng b) = True"
| "is_embedPng _ = False"

text \<open>
  The page that page number \<open>pageNum\<close> contributes to the new document: none when
  the page cannot be fetched, rendered, encoded or embedded.
\<close>

definition page_output ::
  "PageOp PDFLib \<Rightarrow> CompressionSettings \<Rightarrow> PDFDocumentProxy \<Rightarrow> nat \<Rightarrow> PageOp PDFPage option" where
  "page_output lib settings pdfDocument pageNum =
    (case getPage pdfDocument pageNum of
       None \<Rightarrow> None
     | Some page \<Rightarrow>
        (case renderAndCompressPage page settings of
           Inl e \<Rightarrow> None
         | Inr (imageBytes, w, h) \<Rightarrow>
            (if format settings = Jpeg
             then (if embedJpg lib imageBytes
                   then Some \<lparr>page_size = (w, h),
                          page_ops = [DrawImage (JpgImage imageBytes)
                            \<lparr>draw_x = 0, draw_y = 0, draw_width = w, draw_height = h\<rparr>]\<rparr>
                   else None)
             else (if embedPng lib imageBytes
                   then Some \<lparr>page_size = (w, h),
                          page_ops = [DrawImage (PngImage imageBytes)
                            \<lparr>draw_x = 0, draw_y = 0, draw_width = w, draw_height = h\<rparr>]\<rparr>
                   else None))))"

definition page_ok :: "PageOp PDFLib \<Rightarrow> CompressionSettings \<Rightarrow> PDFDocumentProxy \<Rightarrow> nat \<Rightarrow> bool" where
  "page_ok lib settings pdfDocument pageNum =
    (case page_output lib settings pdfDocument pageNum of None \<Rightarrow> False | Some pg \<Rightarrow> True)"

definition page_numbers :: "PDFDocumentProxy \<Rightarrow> nat list" where
  "page_numbers pdfDocument = [1..<Suc (numPages pdfDocument)]"

definition surviving_pages ::
  "PageOp PDFLib \<Rightarrow> CompressionSettings \<Rightarrow> PDFDocumentProxy \<Rightarrow> nat list" where
  "surviving_pages lib settings pdfDocument =
    filter (page_ok lib settings pdfDocument) (page_numbers pdfDocument)"

definition failed_pages ::
  "PageOp PDFLib \<Rightarrow> CompressionSettings \<Rightarrow> PDFDocumentProxy \<Rightarrow> nat list" where
  "failed_pages lib settings pdfDocument =
    filter (\<lambda>n. \<not> page_ok lib settings pdfDocument n) (page_numbers pdfDocument)"

section \<open>The compress route\<close>

datatype Status = Pending | Processing | Completed | Error

record PDFFile =
  pf_id :: string
  pf_file :: File
  pf_name :: string
  pf_size :: nat
  compressedSize :: "nat option"
  status :: Status
  progress :: "nat option"

text \<open>
  The state of a route component: the file list, the busy flag, and what the
  user has been shown (alerts, downloads started). \<open>opened\<close> lists the ids of
  the files whose processing was started.
\<close>

record ('f, 'd) route =
  pdfFiles :: "'f list"
  isProcessing :: bool
  alerts :: "string list"
  downloads :: "(string \<times> 'd) list"
  opened :: "string list"

type_synonym compress_route = "(PDFFile, PageOp SavedPDF) route"

text \<open>
  The callback of the route stores the percentage of pages done. It is computed
  here over the rationals; the source computes it in double precision, which may
  round differently. No statement below reads the value.
\<close>

definition handleCompressPDF ::
  "PageOp PDFLib \<Rightarrow> CompressionMode \<Rightarrow> PDFFile \<Rightarrow> compress_route \<Rightarrow>
   compress_route compress_result" where
  "handleCompressPDF lib compressionMode pdfFile ui =
    compressPDF lib (pf_file pdfFile) compressionMode
      (Some (\<lambda>current totalPages u.
         (let percent = nat \<lfloor>(of_nat current / of_nat totalPages) * (100 :: rat)\<rfloor>
          in Some (u\<lparr>pdfFiles :=
               map (\<lambda>f. if pf_id f = pf_id pdfFile then f\<lparr>progress := Some percent\<rparr> else f)
                 (pdfFiles u)\<rparr>))))
      ui"

fun compress_each ::
  "PageOp PDFLib \<Rightarrow> CompressionMode \<Rightarrow> PDFFile list \<Rightarrow> compress_route \<Rightarrow> compress_route" where
  "compress_each lib compressionMode [] ui = ui"
| "compress_each lib compressionMode (pdfFile # rest) ui =
    (let ui1 = ui\<lparr>pdfFiles :=
                 map (\<lambda>f. if pf_id f = pf_id pdfFile then f\<lparr>status := Processing\<rparr> else f)
                   (pdfFiles ui),
               opened := opened ui @ [pf_id pdfFile]\<rparr>;
         r = handleCompressPDF lib compressionMode pdfFile ui1;
         ui2 = cb_after r
     in compress_each lib compressionMode rest
          (case result r of
             Inr compressedBytes \<Rightarrow>
               (let csize = byteLength lib compressedBytes;
                    ui3 = ui2\<lparr>pdfFiles :=
                      map (\<lambda>f. if pf_id f = pf_id pdfFile
                                then f\<lparr>compressedSize := Some csize, status := Completed\<rparr>
                                else f)
                        (pdfFiles ui2)\<rparr>
                in ui3\<lparr>downloads := downloads ui3 @
                          [(''compressed-'' @ pf_name pdfFile, compressedBytes)]\<rparr>)
           | Inl e \<Rightarrow>
               ui2\<lparr>pdfFiles :=
                 map (\<lambda>f. if pf_id f = pf_id pdfFile then f\<lparr>status := Error\<rparr> else f)
                   (pdfFiles ui2)\<rparr>))"

definition compressPDFs ::
  "PageOp PDFLib \<Rightarrow> CompressionMode \<Rightarrow> compress_route \<Rightarrow> compress_route" where
  "compressPDFs lib compressionMode ui =
    (if length (pdfFiles ui) = 0
     then ui\<lparr>alerts := alerts ui @ [''Please select at least 1 PDF file to compress'']\<rparr>
     else (let ui1 = ui\<lparr>isProcessing := True\<rparr>;
               ui2 = compress_each lib compressionMode (pdfFiles ui) ui1
           in ui2\<lparr>isProcessing := False\<rparr>))"

text \<open>The outcome of one document of the batch, and the status it ends with.\<close>

definition compress_outcome ::
  "PageOp PDFLib \<Rightarrow> CompressionMode \<Rightarrow> PDFFile \<Rightarrow> error + PageOp SavedPDF" where
  "compress_outcome lib compressionMode pdfFile =
    result (compressPDF lib (pf_file pdfFile) compressionMode
              (None :: unit progress_cb option) ())"

definition final_status :: "PageOp PDFLib \<Rightarrow> CompressionMode \<Rightarrow> PDFFile \<Rightarrow> Status" where
  "final_status lib compressionMode pdfFile =
    (case compress_outcome lib compressionMode pdfFile of
       Inl e \<Rightarrow> Error | Inr b \<Rightarrow> Completed)"

definition expected_downloads ::
  "PageOp PDFLib \<Rightarrow> CompressionMode \<Rightarrow> PDFFile list \<Rightarrow> (string \<times> PageOp SavedPDF) list" where
  "expected_downloads lib compressionMode fs =
    List.map_filter
      (\<lambda>f. case compress_outcome lib compressionMode f of
              Inl e \<Rightarrow> None
            | Inr b \<Rightarrow> Some (''compressed-'' @ pf_name f, b))
      fs"

text \<open>The identifier and status of each entry of the file list, in order.\<close>

definition id_status :: "PDFFile list \<Rightarrow> (string \<times> Status) list" where
  "id_status fs = map (\<lambda>f. (pf_id f, status f)) fs"

text \<open>Two states of the route that differ at most in the progress shown.\<close>

definition same_but_progress :: "compress_route \<Rightarrow> compress_route \<Rightarrow> bool" where
  "same_but_progress u v =
    (id_status (pdfFiles u) = id_status (pdfFiles v) \<and>
     isProcessing u = isProcessing v \<and> alerts u = alerts v \<and>
     downloads u = downloads v \<and> opened u = opened v)"

section \<open>The merge route\<close>

text \<open>
  A file of the merge tool: \<open>load\<close> is what reading the file and opening it
  with pdf-lib yields, the list of its pages, or \<open>None\<close> when a promise rejects.
\<close>

record 'c MergeFile =
  mf_id :: string
  mf_name :: string
  mf_size :: nat
  load :: "'c PDFPage list option"

type_synonym 'c merge_route = "('c MergeFile, 'c SavedPDF) route"

definition getPageIndices :: "'c PDFPage list \<Rightarrow> nat list" where
  "getPageIndices pdf = [0..<length pdf]"

definition copyPages :: "'c PDFPage list \<Rightarrow> nat list \<Rightarrow> 'c PDFPage list" where
  "copyPages pdf indices = map (\<lambda>i. pdf ! i) indices"

definition addCopiedPage :: "'c PDFPage list \<Rightarrow> 'c PDFPage \<Rightarrow> 'c PDFPage list" where
  "addCopiedPage doc pg = doc @ [pg]"

fun merge_each ::
  "'c MergeFile list \<Rightarrow> 'c PDFPage list \<Rightarrow> 'c merge_route \<Rightarrow>
   (error + 'c PDFPage list) \<times> 'c merge_route" where
  "merge_each [] mergedPdf ui = (Inr mergedPdf, ui)"
| "merge_each (pdfFile # rest) mergedPdf ui =
    (let ui1 = ui\<lparr>opened := opened ui @ [mf_id pdfFile]\<rparr>
     in case load pdfFile of
          None \<Rightarrow> (Inl LoadFailed, ui1)
        | Some pdf \<Rightarrow>
           (let copiedPages = copyPages pdf (getPageIndices pdf)
            in merge_each rest (foldl addCopiedPage mergedPdf copiedPages) ui1))"

definition mergePDFs :: "'c PDFLib \<Rightarrow> string \<Rightarrow> 'c merge_route \<Rightarrow> 'c merge_route" where
  "mergePDFs lib now ui =
    (if length (pdfFiles ui) < 2
     then ui\<lparr>alerts := alerts ui @ [''Please select at least 2 PDF files to merge'']\<rparr>
     else (let ui1 = ui\<lparr>isProcessing := True\<rparr>;
               (r, ui2) = merge_each (pdfFiles ui) [] ui1;
               failed = ui2\<lparr>alerts := alerts ui2 @
                          [''An error occurred while merging PDFs. Please try again.'']\<rparr>;
               ui3 = (case r of
                        Inl e \<Rightarrow> failed
                      | Inr mergedPdf \<Rightarrow>
                         (case save lib defaultSaveOptions mergedPdf of
                            Inl e \<Rightarrow> failed
                          | Inr mergedPdfBytes \<Rightarrow>
                             ui2\<lparr>pdfFiles := [],
                                 downloads := downloads ui2 @
                                   [(''merged-'' @ now @ ''.pdf'', mergedPdfBytes)]\<rparr>))
           in ui3\<lparr>isProcessing := False\<rparr>))"

text \<open>The pages of all the files, in list order (a file that does not load has none).\<close>

definition merged_pages :: "'c MergeFile list \<Rightarrow> 'c PDFPage list" where
  "merged_pages fs = concat (map (\<lambda>f. case load f of None \<Rightarrow> [] | Some pdf \<Rightarrow> pdf) fs)"

definition page_count :: "'c MergeFile \<Rightarrow> nat" where
  "page_count f = (case load f of None \<Rightarrow> 0 | Some pdf \<Rightarrow> length pdf)"

section \<open>Pending rotations (rotate route, organize route)\<close>

text \<open>
  The remainder operator of JavaScript takes the sign of the dividend. The
  rotation values are integers.
\<close>

definition js_rem :: "int \<Rightarrow> int \<Rightarrow> int" where
  "js_rem a b = sgn a * (\<bar>a\<bar> mod \<bar>b\<bar>)"

datatype RotateDirection = Clockwise | Counterclockwise

definition newRotation :: "int \<Rightarrow> RotateDirection \<Rightarrow> int" where
  "newRotation r direction =
    (let change = (if direction = Clockwise then 90 else - 90)
     in js_rem (r + change + 360) 360)"

record RotateFile =
  rf_id :: string
  rf_name :: string
  rf_size :: nat
  rotation :: int
  rf_status :: Status
  pageCount :: "nat option"

definition addFiles :: "(string \<times> string \<times> nat \<times> nat) list \<Rightarrow> RotateFile list \<Rightarrow> RotateFile list" where
  "addFiles loaded prev =
    prev @ map (\<lambda>(i, n, sz, pc).
              \<lparr>rf_id = i, rf_name = n, rf_size = sz, rotation = 0, rf_status = Pending,
               pageCount = Some pc\<rparr>) loaded"

definition removeFile :: "string \<Rightarrow> RotateFile list \<Rightarrow> RotateFile list" where
  "removeFile i prev = filter (\<lambda>file. rf_id file \<noteq> i) prev"

definition rotateFile :: "string \<Rightarrow> RotateDirection \<Rightarrow> RotateFile list \<Rightarrow> RotateFile list" where
  "rotateFile i direction prev =
    map (\<lambda>file. if rf_id file = i
                 then file\<lparr>rotation := newRotation (rotation file) direction\<rparr>
                 else file) prev"

definition rotateAllFiles :: "RotateDirection \<Rightarrow> RotateFile list \<Rightarrow> RotateFile list" where
  "rotateAllFiles direction prev =
    map (\<lambda>file. file\<lparr>rotation := newRotation (rotation file) direction\<rparr>) prev"

definition resetRotation :: "string \<Rightarrow> RotateFile list \<Rightarrow> RotateFile list" where
  "resetRotation i prev = map (\<lambda>file. if rf_id file = i then file\<lparr>rotation := 0\<rparr> else file) prev"

definition resetAllRotations :: "RotateFile list \<Rightarrow> RotateFile list" where
  "resetAllRotations prev = map (\<lambda>file. file\<lparr>rotation := 0\<rparr>) prev"

datatype rotate_action =
    AddFiles "(string \<times> string \<times> nat \<times> nat) list"
  | RemoveFile string
  | DoRotateFile string RotateDirection
  | DoRotateAllFiles RotateDirection
  | ResetRotation string
  | ResetAllRotations

fun rotate_step :: "RotateFile list \<Rightarrow> rotate_action \<Rightarrow> RotateFile list" where
  "rotate_step fs (AddFiles loaded) = addFiles loaded fs"
| "rotate_step fs (RemoveFile i) = removeFile i fs"
| "rotate_step fs (DoRotateFile i d) = rotateFile i d fs"
| "rotate_step fs (DoRotateAllFiles d) = rotateAllFiles d fs"
| "rotate_step fs (ResetRotation i) = resetRotation i fs"
| "rotate_step fs ResetAllRotations = resetAllRotations fs"

definition rotate_run :: "rotate_action list \<Rightarrow> RotateFile list" where
  "rotate_run acts = foldl rotate_step [] acts"

text \<open>
  The organize route keeps one pending rotation per page of the open file
  (\<open>None\<close> when no file is open). Of a page the identifier, the rotation
  and the deletion mark are kept; its number and preview are neither read nor
  written by the operations below.
\<close>

record OrganizePage =
  op_id :: string
  op_rotation :: int
  isDeleted :: bool

definition newPages :: "string list \<Rightarrow> OrganizePage list" where
  "newPages ids = map (\<lambda>pid. \<lparr>op_id = pid, op_rotation = 0, isDeleted = False\<rparr>) ids"

definition loadPdfFile :: "string list \<Rightarrow> OrganizePage list option" where
  "loadPdfFile ids = Some (newPages ids)"

definition handleAddPages :: "string list \<Rightarrow> OrganizePage list option \<Rightarrow> OrganizePage list option" where
  "handleAddPages ids pdfFile =
    (case pdfFile of
       None \<Rightarrow> None
     | Some pgs \<Rightarrow> Some (pgs @ newPages ids))"

definition rotatePage ::
  "string \<Rightarrow> RotateDirection \<Rightarrow> OrganizePage list option \<Rightarrow> OrganizePage list option" where
  "rotatePage pageId direction pdfFile =
    (case pdfFile of
       None \<Rightarrow> None
     | Some pgs \<Rightarrow>
        Some (map (\<lambda>pg. if op_id pg = pageId
                         then pg\<lparr>op_rotation := newRotation (op_rotation pg) direction\<rparr>
                         else pg) pgs))"

definition deletePage :: "string \<Rightarrow> OrganizePage list option \<Rightarrow> OrganizePage list option" where
  "deletePage pageId pdfFile =
    (case pdfFile of
       None \<Rightarrow> None
     | Some pgs \<Rightarrow> Some (map (\<lambda>pg. if op_id pg = pageId then pg\<lparr>isDeleted := True\<rparr> else pg) pgs))"

definition restorePage :: "string \<Rightarrow> OrganizePage list option \<Rightarrow> OrganizePage list option" where
  "restorePage pageId pdfFile =
    (case pdfFile of
       None \<Rightarrow> None
     | Some pgs \<Rightarrow> Some (map (\<lambda>pg. if op_id pg = pageId then pg\<lparr>isDeleted := False\<rparr> else pg) pgs))"

text \<open>\<open>findIndex\<close> of JavaScript, with \<open>None\<close> for -1.\<close>

definition findIndex :: "('a \<Rightarrow> bool) \<Rightarrow> 'a list \<Rightarrow> nat option" where
  "findIndex P xs =
    (if list_ex P xs then Some (length (takeWhile (\<lambda>x. \<not> P x) xs)) else None)"

text \<open>
  Dropping a dragged page on another one moves it to the place of the target:
  the two \<open>splice\<close> calls of the source.
\<close>

definition movePage :: "nat \<Rightarrow> nat \<Rightarrow> 'a list \<Rightarrow> 'a list" where
  "movePage draggedIndex targetIndex pgs =
    (let draggedPage = pgs ! draggedIndex;
         removed = take draggedIndex pgs @ drop (Suc draggedIndex) pgs
     in take targetIndex removed @ [draggedPage] @ drop targetIndex removed)"

definition handlePageDrop ::
  "string \<Rightarrow> string \<Rightarrow> OrganizePage list option \<Rightarrow> OrganizePage list option" where
  "handlePageDrop draggedPageId targetPageId pdfFile =
    (if draggedPageId = targetPageId then pdfFile
     else (case pdfFile of
             None \<Rightarrow> None
           | Some pgs \<Rightarrow>
              (case findIndex (\<lambda>p. op_id p = draggedPageId) pgs of
                 None \<Rightarrow> Some pgs
               | Some draggedIndex \<Rightarrow>
                  (case findIndex (\<lambda>p. op_id p = targetPageId) pgs of
                     None \<Rightarrow> Some pgs
                   | Some targetIndex \<Rightarrow> Some (movePage draggedIndex targetIndex pgs)))))"

datatype organize_action =
    LoadPdfFile "string list"
  | AddPages "string list"
  | RotatePage string RotateDirection
  | DeletePage string
  | RestorePage string
  | PageDrop string string

fun organize_step :: "OrganizePage list option \<Rightarrow> organize_action \<Rightarrow> OrganizePage list option" where
  "organize_step pdfFile (LoadPdfFile ids) = loadPdfFile ids"
| "organize_step pdfFile (AddPages ids) = handleAddPages ids pdfFile"
| "organize_step pdfFile (RotatePage i d) = rotatePage i d pdfFile"
| "organize_step pdfFile (DeletePage i) = deletePage i pdfFile"
| "organize_step pdfFile (RestorePage i) = restorePage i pdfFile"
| "organize_step pdfFile (PageDrop i j) = handlePageDrop i j pdfFile"

definition organize_run :: "organize_action list \<Rightarrow> OrganizePage list option" where
  "organize_run acts = foldl organize_step None acts"

definition valid_rotation :: "int \<Rightarrow> bool" where
  "valid_rotation r = (r = 0 \<or> r = 90 \<or> r = 180 \<or> r = 270)"

definition pages_valid :: "OrganizePage list option \<Rightarrow> bool" where
  "pages_valid pdfFile =
    (case pdfFile of None \<Rightarrow> True
     | Some pgs \<Rightarrow> list_all (\<lambda>pg. valid_rotation (op_rotation pg)) pgs)"

section \<open>Derived notions and sample inputs\<close>

text \<open>The pages the loop leaves in the new document for a given input.\<close>

definition rebuilt_pages ::
  "PageOp PDFLib \<Rightarrow> CompressionSettings \<Rightarrow> PDFDocumentProxy \<Rightarrow> PageOp PDFPage list" where
  "rebuilt_pages lib settings pdfDocument =
    List.map_filter (page_output lib settings pdfDocument) (page_numbers pdfDocument)"

fun is_jpg_op :: "PageOp \<Rightarrow> bool" where
  "is_jpg_op (DrawImage (JpgImage b) opts) = True"
| "is_jpg_op (DrawImage (PngImage b) opts) = False"

text \<open>
  A letter-size page whose canvas always encodes, and that renders or not; a
  three-page document whose second page does not render; a document none of
  whose pages renders; a file that pdf.js cannot open.
\<close>

definition ex_page :: "bool \<Rightarrow> PDFPageProxy" where
  "ex_page renders =
    \<lparr>getViewport = (\<lambda>s. \<lparr>width = 612 * s, height = 792 * s\<rparr>),
     getContext = True,
     render = (\<lambda>vp. renders),
     toBlob = (\<lambda>vp mime q. Some [255, 216, 255])\<rparr>"

definition ex_doc3 :: PDFDocumentProxy where
  "ex_doc3 = \<lparr>numPages = 3, getPage = (\<lambda>n. Some (ex_page (n \<noteq> 2)))\<rparr>"

definition ex_doc_unrenderable :: PDFDocumentProxy where
  "ex_doc_unrenderable = \<lparr>numPages = 2, getPage = (\<lambda>n. Some (ex_page False))\<rparr>"

definition ex_file3 :: File where
  "ex_file3 = \<lparr>file_name = ''three.pdf'', file_size = 1000, getDocument = Some ex_doc3\<rparr>"

definition ex_file_unrenderable :: File where
  "ex_file_unrenderable =
    \<lparr>file_name = ''blank.pdf'', file_size = 500, getDocument = Some ex_doc_unrenderable\<rparr>"

definition ex_file_broken :: File where
  "ex_file_broken = \<lparr>file_name = ''broken.pdf'', file_size = 0, getDocument = None\<rparr>"

definition ex_lib :: "PageOp PDFLib" where
  "ex_lib =
    \<lparr>embedJpg = (\<lambda>b. True), embedPng = (\<lambda>b. True), save_resolves = (\<lambda>d. True),
     byteLength = (\<lambda>saved. 100 * length (saved_pages saved))\<rparr>"

definition ex_cb :: "(nat \<times> nat) list progress_cb" where
  "ex_cb current tp u = Some (u @ [(current, tp)])"

definition ex_pdfFile :: "string \<Rightarrow> File \<Rightarrow> PDFFile" where
  "ex_pdfFile i f =
    \<lparr>pf_id = i, pf_file = f, pf_name = file_name f, pf_size = file_size f,
     compressedSize = None, status = Pending, progress = None\<rparr>"

definition ex_batch :: compress_route where
  "ex_batch =
    \<lparr>pdfFiles = [ex_pdfFile ''a'' ex_file_broken, ex_pdfFile ''b'' ex_file3],
     isProcessing = False, alerts = [], downloads = [], opened = []\<rparr>"

definition ex_none_selected :: compress_route where
  "ex_none_selected =
    \<lparr>pdfFiles = [], isProcessing = False, alerts = [], downloads = [], opened = []\<rparr>"

text \<open>Files of the merge tool, with pages told apart by their content.\<close>

definition ex_mlib :: "nat PDFLib" where
  "ex_mlib =
    \<lparr>embedJpg = (\<lambda>b. True), embedPng = (\<lambda>b. True), save_resolves = (\<lambda>d. True),
     byteLength = (\<lambda>saved. 100 * length (saved_pages saved))\<rparr>"

definition ex_mpage :: "nat \<Rightarrow> nat PDFPage" where
  "ex_mpage k = \<lparr>page_size = (612, 792), page_ops = [k]\<rparr>"

definition ex_mfile :: "string \<Rightarrow> nat PDFPage list \<Rightarrow> nat MergeFile" where
  "ex_mfile i pgs = \<lparr>mf_id = i, mf_name = i @ ''.pdf'', mf_size = 10, load = Some pgs\<rparr>"

definition ex_merge :: "nat MergeFile list \<Rightarrow> nat merge_route" where
  "ex_merge fs =
    \<lparr>pdfFiles = fs, isProcessing = False, alerts = [], downloads = [], opened = []\<rparr>"

section \<open>The page loop of compressPDF\<close>

lemma try_page_newPdfDoc:
  "newPdfDoc (snd (try_page lib settings onProgress doc N n st)) =
     newPdfDoc st @ (case page_output lib settings doc n of None \<Rightarrow> [] | Some pg \<Rightarrow> [pg])"
  by (auto simp: try_page_def page_output_def addPage_def drawImage_def Let_def
           split: option.splits sum.splits prod.splits)

lemma process_page_newPdfDoc:
  "newPdfDoc (process_page lib settings onProgress doc N n st) =
     newPdfDoc st @ (case page_output lib settings doc n of None \<Rightarrow> [] | Some pg \<Rightarrow> [pg])"
  using try_page_newPdfDoc [of lib settings onProgress doc N n st]
  by (cases "try_page lib settings onProgress doc N n st")
     (auto simp: process_page_def split: option.splits)

lemma upt_step: "n \<le> N \<Longrightarrow> [n..<Suc N] = n # [Suc n..<Suc N]"
  by (simp add: upt_conv_Cons)

lemma page_loop_newPdfDoc:
  "newPdfDoc (page_loop lib settings onProgress doc N n st) =
     newPdfDoc st @ List.map_filter (page_output lib settings doc) [n..<Suc N]"
proof (induction lib settings onProgress doc N n st rule: page_loop.induct)
  case (1 lib settings onProgress doc N n st)
  show ?case
  proof (cases "n \<le> N")
    case True
    with 1 show ?thesis
      by (subst page_loop.simps)
         (simp add: upt_step process_page_newPdfDoc List.map_filter_simps del: upt_Suc
               split: option.splits)
  next
    case False
    then show ?thesis by (subst page_loop.simps) (simp add: List.map_filter_simps)
  qed
qed

lemma progress_calls_append:
  "progress_calls (xs @ ys) = progress_calls xs @ progress_calls ys"
  by (simp add: progress_calls_def List.map_filter_def)

lemma try_page_error_iff:
  "fst (try_page lib settings None doc N n st) = None \<longleftrightarrow> page_ok lib settings doc n"
  by (auto simp: try_page_def page_ok_def page_output_def Let_def
           split: option.splits sum.splits prod.splits)

lemma process_page_progress:
  "progress_calls (trace (process_page lib settings onProgress doc N n st)) =
     progress_calls (trace st) @
       (if onProgress \<noteq> None \<and> page_ok lib settings doc n then [(n, N)] else [])"
  by (auto simp: process_page_def try_page_def page_ok_def page_output_def Let_def
                 progress_calls_def List.map_filter_def
           split: option.splits sum.splits prod.splits)

lemma page_loop_progress:
  "progress_calls (trace (page_loop lib settings onProgress doc N n st)) =
     progress_calls (trace st) @
       (if onProgress \<noteq> None
        then map (\<lambda>k. (k, N)) (filter (page_ok lib settings doc) [n..<Suc N]) else [])"
proof (induction lib settings onProgress doc N n st rule: page_loop.induct)
  case (1 lib settings onProgress doc N n st)
  show ?case
  proof (cases "n \<le> N")
    case True
    with 1 show ?thesis
      by (subst page_loop.simps) (simp add: upt_step process_page_progress del: upt_Suc)
  next
    case False
    then show ?thesis by (subst page_loop.simps) simp
  qed
qed

lemma process_page_no_save:
  "list_all (\<lambda>e. \<not> is_save e) (trace st) \<Longrightarrow>
   list_all (\<lambda>e. \<not> is_save e) (trace (process_page lib settings onProgress doc N n st))"
  by (auto simp: process_page_def try_page_def Let_def
           split: option.splits sum.splits prod.splits)

lemma page_loop_no_save:
  "list_all (\<lambda>e. \<not> is_save e) (trace st) \<Longrightarrow>
   list_all (\<lambda>e. \<not> is_save e) (trace (page_loop lib settings onProgress doc N n st))"
proof (induction lib settings onProgress doc N n st rule: page_loop.induct)
  case (1 lib settings onProgress doc N n st)
  show ?case
  proof (cases "n \<le> N")
    case True
    with 1 show ?thesis
      by (subst page_loop.simps) (simp add: process_page_no_save)
  next
    case False
    with 1 show ?thesis by (subst page_loop.simps) simp
  qed
qed

lemma process_page_no_png:
  "format settings = Jpeg \<Longrightarrow> list_all (\<lambda>e. \<not> is_embedPng e) (trace st) \<Longrightarrow>
   list_all (\<lambda>e. \<not> is_embedPng e) (trace (process_page lib settings onProgress doc N n st))"
  by (auto simp: process_page_def try_page_def Let_def
           split: option.splits sum.splits prod.splits)

lemma page_loop_no_png:
  "format settings = Jpeg \<Longrightarrow> list_all (\<lambda>e. \<not> is_embedPng e) (trace st) \<Longrightarrow>
   list_all (\<lambda>e. \<not> is_embedPng e) (trace (page_loop lib settings onProgress doc N n st))"
proof (induction lib settings onProgress doc N n st rule: page_loop.induct)
  case (1 lib settings onProgress doc N n st)
  show ?case
  proof (cases "n \<le> N")
    case True
    with 1 show ?thesis
      by (subst page_loop.simps) (simp add: process_page_no_png)
  next
    case False
    with 1 show ?thesis by (subst page_loop.simps) simp
  qed
qed

lemma process_page_cb:
  assumes "\<And>current tp u u'. f current tp u = Some u' \<Longrightarrow> P u \<Longrightarrow> P u'"
    and "P (cb st)"
  shows "P (cb (process_page lib settings (Some f) doc N n st))"
  using assms
  by (auto simp: process_page_def try_page_def Let_def
           split: option.splits sum.splits prod.splits)

lemma page_loop_cb:
  assumes "\<And>current tp u u'. f current tp u = Some u' \<Longrightarrow> P u \<Longrightarrow> P u'"
    and "P (cb st)"
  shows "P (cb (page_loop lib settings (Some f) doc N n st))"
  using assms(2)
proof (induction lib settings "Some f" doc N n st rule: page_loop.induct)
  case (1 lib settings doc N n st)
  show ?case
  proof (cases "n \<le> N")
    case True
    have "P (cb (process_page lib settings (Some f) doc N n st))"
      using assms(1) 1(2) by (rule process_page_cb)
    with True 1(1) show ?thesis by (subst page_loop.simps) simp
  next
    case False
    with 1 show ?thesis by (subst page_loop.simps) simp
  qed
qed

section \<open>The result of compressPDF\<close>

lemma save_keep_pages:
  "save lib \<lparr>useObjectStreams = u, addDefaultPage = False\<rparr> doc =
     (if save_resolves lib doc then Inr \<lparr>saved_pages = doc, objectStreams = u\<rparr>
      else Inl SaveFailed)"
  by (simp add: save_def prepareForSave_def)

lemma compressPDF_with_loaded:
  assumes "getDocument pdfFile = Some pdfDocument"
  shows "result (compressPDF_with lib pdfFile settings onProgress s) =
           (if save_resolves lib (rebuilt_pages lib settings pdfDocument)
            then Inr \<lparr>saved_pages = rebuilt_pages lib settings pdfDocument, objectStreams = True\<rparr>
            else Inl SaveFailed)"
    and "events (compressPDF_with lib pdfFile settings onProgress s) =
           trace (page_loop lib settings onProgress pdfDocument (numPages pdfDocument) 1
                    \<lparr>newPdfDoc = [], trace = [], cb = s\<rparr>) @
           [EvSave \<lparr>useObjectStreams = True, addDefaultPage = False\<rparr>]"
    and "cb_after (compressPDF_with lib pdfFile settings onProgress s) =
           cb (page_loop lib settings onProgress pdfDocument (numPages pdfDocument) 1
                    \<lparr>newPdfDoc = [], trace = [], cb = s\<rparr>)"
  using assms
  by (simp_all add: compressPDF_with_def Let_def save_keep_pages page_loop_newPdfDoc
        rebuilt_pages_def page_numbers_def)

lemma compressPDF_with_not_loaded:
  assumes "getDocument pdfFile = None"
  shows "compressPDF_with lib pdfFile settings onProgress s =
           \<lparr>result = Inl LoadFailed, cb_after = s, events = []\<rparr>"
  using assms by (simp add: compressPDF_with_def)

lemma rebuilt_pages_surviving:
  "rebuilt_pages lib settings pdfDocument =
     map (\<lambda>n. the (page_output lib settings pdfDocument n))
       (surviving_pages lib settings pdfDocument)"
proof -
  have "(\<lambda>n. page_output lib settings pdfDocument n \<noteq> None) = page_ok lib settings pdfDocument"
    by (auto simp: page_ok_def fun_eq_iff split: option.splits)
  then show ?thesis
    by (simp add: rebuilt_pages_def surviving_pages_def List.map_filter_def comp_def)
qed

lemma surviving_failed_count:
  "length (surviving_pages lib settings pdfDocument) =
     numPages pdfDocument - length (failed_pages lib settings pdfDocument)"
proof -
  have "length (surviving_pages lib settings pdfDocument) +
        length (failed_pages lib settings pdfDocument) = length (page_numbers pdfDocument)"
    unfolding surviving_pages_def failed_pages_def by (rule sum_length_filter_compl)
  moreover have "length (page_numbers pdfDocument) = numPages pdfDocument"
    by (simp add: page_numbers_def)
  ultimately show ?thesis by simp
qed

lemma surviving_sorted:
  "sorted_wrt (<) (surviving_pages lib settings pdfDocument)"
  unfolding surviving_pages_def page_numbers_def
  by (rule sorted_wrt_filter) (rule sorted_wrt_upt)

lemma surviving_range:
  "set (surviving_pages lib settings pdfDocument) \<subseteq> {1..numPages pdfDocument}"
  by (auto simp: surviving_pages_def page_numbers_def)

lemma failed_none_surviving_all:
  "failed_pages lib settings pdfDocument = [] \<Longrightarrow>
     surviving_pages lib settings pdfDocument = page_numbers pdfDocument"
  by (simp add: failed_pages_def surviving_pages_def filter_empty_conv)

section \<open>Claims about compressPDF\<close>

text \<open>
  C1. For a document that pdf.js opens with N pages, and whose rebuilt document
  pdf-lib serializes, compressPDF returns a document that holds exactly the pages
  whose iteration did not fail, in the order of the input: N pages when no page
  fails, N - K pages when K pages fail. A page fails when it cannot be fetched,
  rendered, encoded or embedded; each such failure is caught by the loop and the
  page is left out, never replaced or moved.
\<close>
theorem compressPDF_pages_kept_in_order:
  assumes "getDocument pdfFile = Some pdfDocument"
    and "save_resolves lib (rebuilt_pages lib (compressionSettings mode) pdfDocument)"
  shows "\<exists>saved. result (compressPDF lib pdfFile mode onProgress s) = Inr saved \<and>
           saved_pages saved =
             map (\<lambda>n. the (page_output lib (compressionSettings mode) pdfDocument n))
               (surviving_pages lib (compressionSettings mode) pdfDocument) \<and>
           length (saved_pages saved) =
             numPages pdfDocument - length (failed_pages lib (compressionSettings mode) pdfDocument) \<and>
           (failed_pages lib (compressionSettings mode) pdfDocument = [] \<longrightarrow>
              length (saved_pages saved) = numPages pdfDocument) \<and>
           sorted_wrt (<) (surviving_pages lib (compressionSettings mode) pdfDocument)"
proof -
  let ?cs = "compressionSettings mode"
  have r: "result (compressPDF lib pdfFile mode onProgress s) =
             Inr \<lparr>saved_pages = rebuilt_pages lib ?cs pdfDocument, objectStreams = True\<rparr>"
    using assms by (simp add: compressPDF_def compressPDF_with_loaded(1))
  have len: "length (rebuilt_pages lib ?cs pdfDocument) =
               numPages pdfDocument - length (failed_pages lib ?cs pdfDocument)"
    by (simp add: rebuilt_pages_surviving surviving_failed_count)
  show ?thesis
    using r len rebuilt_pages_surviving [of lib ?cs pdfDocument] surviving_sorted [of lib ?cs pdfDocument]
    by simp
qed

theorem compressPDF_pages_kept_in_order_witness:
  "\<exists>saved. result (compressPDF ex_lib ex_file3 Normal (None :: unit progress_cb option) ()) = Inr saved \<and>
     length (saved_pages saved) = 2 \<and>
     surviving_pages ex_lib (compressionSettings Normal) ex_doc3 = [1, 3]"
proof -
  have a: "getDocument ex_file3 = Some ex_doc3" by (simp add: ex_file3_def)
  have b: "save_resolves ex_lib (rebuilt_pages ex_lib (compressionSettings Normal) ex_doc3)"
    by (simp add: ex_lib_def)
  have f: "failed_pages ex_lib (compressionSettings Normal) ex_doc3 = [2]"
    by code_simp
  have g: "surviving_pages ex_lib (compressionSettings Normal) ex_doc3 = [1, 3]"
    by code_simp
  show ?thesis
    using compressPDF_pages_kept_in_order [OF a b, of None "()"] f g
    by (auto simp: ex_doc3_def)
qed

lemma preset_format: "format (compressionSettings mode) = Jpeg"
  by (cases mode) simp_all

lemma renderAndCompressPage_dims:
  "renderAndCompressPage page settings = Inr (imageBytes, w, h) \<Longrightarrow>
     w = width (getViewport page (scale settings)) \<and>
     h = height (getViewport page (scale settings))"
  by (auto simp: renderAndCompressPage_def Let_def split: if_splits option.splits)

lemma page_output_jpeg:
  assumes "page_output lib settings pdfDocument n = Some pg" and "format settings = Jpeg"
  shows "\<exists>page imageBytes w h.
           getPage pdfDocument n = Some page \<and>
           renderAndCompressPage page settings = Inr (imageBytes, w, h) \<and>
           pg = \<lparr>page_size = (w, h),
                 page_ops = [DrawImage (JpgImage imageBytes)
                   \<lparr>draw_x = 0, draw_y = 0, draw_width = w, draw_height = h\<rparr>]\<rparr>"
  using assms
  by (auto simp: page_output_def split: option.splits sum.splits if_splits)

lemma result_loaded_Inr:
  assumes "getDocument pdfFile = Some pdfDocument"
    and "result (compressPDF lib pdfFile mode onProgress s) = Inr saved"
  shows "saved = \<lparr>saved_pages = rebuilt_pages lib (compressionSettings mode) pdfDocument,
                  objectStreams = True\<rparr>"
  using assms
  by (simp add: compressPDF_def compressPDF_with_loaded(1) split: if_splits)

text \<open>
  C5. Every page of the returned document comes from one successfully processed
  input page: its size is exactly the width and height that
  \<open>renderAndCompressPage\<close> returned with the image (those of the viewport the
  image was rendered from), and its only content is that image drawn at the
  origin (0, 0) with the same width and height. Nothing is added around the image
  and no dimension is recomputed.
\<close>
theorem compressPDF_page_sized_to_image:
  assumes "getDocument pdfFile = Some pdfDocument"
    and "result (compressPDF lib pdfFile mode onProgress s) = Inr saved"
    and "i < length (saved_pages saved)"
  shows "\<exists>page imageBytes w h.
           getPage pdfDocument (surviving_pages lib (compressionSettings mode) pdfDocument ! i) =
             Some page \<and>
           renderAndCompressPage page (compressionSettings mode) = Inr (imageBytes, w, h) \<and>
           w = width (getViewport page (scale (compressionSettings mode))) \<and>
           h = height (getViewport page (scale (compressionSettings mode))) \<and>
           page_size (saved_pages saved ! i) = (w, h) \<and>
           page_ops (saved_pages saved ! i) =
             [DrawImage (JpgImage imageBytes)
                \<lparr>draw_x = 0, draw_y = 0, draw_width = w, draw_height = h\<rparr>]"
proof -
  let ?cs = "compressionSettings mode"
  let ?sv = "surviving_pages lib ?cs pdfDocument"
  have pages: "saved_pages saved = map (\<lambda>n. the (page_output lib ?cs pdfDocument n)) ?sv"
    using result_loaded_Inr [OF assms(1,2)] by (simp add: rebuilt_pages_surviving)
  then have i: "i < length ?sv"
    using assms(3) by simp
  then have "?sv ! i \<in> set ?sv"
    by (rule nth_mem)
  then have "page_ok lib ?cs pdfDocument (?sv ! i)"
    by (simp add: surviving_pages_def)
  then obtain pg where pg: "page_output lib ?cs pdfDocument (?sv ! i) = Some pg"
    by (auto simp: page_ok_def split: option.splits)
  from page_output_jpeg [OF pg preset_format]
  obtain page imageBytes w h where
    p: "getPage pdfDocument (?sv ! i) = Some page"
      "renderAndCompressPage page ?cs = Inr (imageBytes, w, h)"
      "pg = \<lparr>page_size = (w, h),
             page_ops = [DrawImage (JpgImage imageBytes)
               \<lparr>draw_x = 0, draw_y = 0, draw_width = w, draw_height = h\<rparr>]\<rparr>"
    by blast
  have "saved_pages saved ! i = pg"
    using pages i pg by simp
  with p renderAndCompressPage_dims [OF p(2)] show ?thesis
    by auto
qed

theorem compressPDF_page_sized_to_image_witness:
  "\<exists>saved. result (compressPDF ex_lib ex_file3 Extreme (None :: unit progress_cb option) ()) = Inr saved \<and>
     length (saved_pages saved) = 2 \<and>
     page_size (saved_pages saved ! 1) = (306, 396) \<and>
     page_ops (saved_pages saved ! 1) =
       [DrawImage (JpgImage [255, 216, 255])
          \<lparr>draw_x = 0, draw_y = 0, draw_width = 306, draw_height = 396\<rparr>]"
proof -
  let ?saved = "\<lparr>saved_pages = rebuilt_pages ex_lib (compressionSettings Extreme) ex_doc3,
                  objectStreams = True\<rparr>"
  have a: "getDocument ex_file3 = Some ex_doc3" by (simp add: ex_file3_def)
  have r: "result (compressPDF ex_lib ex_file3 Extreme (None :: unit progress_cb option) ()) = Inr ?saved"
    using a by (simp add: compressPDF_def compressPDF_with_loaded(1) ex_lib_def)
  have g: "surviving_pages ex_lib (compressionSettings Extreme) ex_doc3 = [1, 3]"
    by code_simp
  have l: "length (rebuilt_pages ex_lib (compressionSettings Extreme) ex_doc3) = 2"
    unfolding rebuilt_pages_surviving g by simp
  then have i: "1 < length (saved_pages ?saved)" by simp
  have v: "getPage ex_doc3 3 = Some (ex_page True)"
    by (simp add: ex_doc3_def)
  show ?thesis
    using compressPDF_page_sized_to_image [OF a r i] r l
    unfolding g by (auto simp: v ex_page_def renderAndCompressPage_def)
qed

text \<open>
  C7. compressPDF serializes the new document exactly once, as its last step,
  with \<open>useObjectStreams\<close> enabled and \<open>addDefaultPage\<close> disabled: the
  serialized document holds the pages of the loop and nothing else, so a document
  none of whose pages survived is serialized with no page at all.
\<close>
theorem compressPDF_save_options:
  assumes "getDocument pdfFile = Some pdfDocument"
  shows "last (events (compressPDF lib pdfFile mode onProgress s)) =
           EvSave \<lparr>useObjectStreams = True, addDefaultPage = False\<rparr> \<and>
         length (filter is_save (events (compressPDF lib pdfFile mode onProgress s))) = 1 \<and>
         (result (compressPDF lib pdfFile mode onProgress s) = Inl SaveFailed \<or>
          result (compressPDF lib pdfFile mode onProgress s) =
            Inr \<lparr>saved_pages = rebuilt_pages lib (compressionSettings mode) pdfDocument,
                 objectStreams = True\<rparr>) \<and>
         (surviving_pages lib (compressionSettings mode) pdfDocument = [] \<longrightarrow>
            rebuilt_pages lib (compressionSettings mode) pdfDocument = [])"
proof -
  let ?st = "page_loop lib (compressionSettings mode) onProgress pdfDocument (numPages pdfDocument) 1
               \<lparr>newPdfDoc = [], trace = [], cb = s\<rparr>"
  have "list_all (\<lambda>e. \<not> is_save e) (trace ?st)"
    by (rule page_loop_no_save) simp
  then have "filter is_save (trace ?st) = []"
    by (simp add: filter_empty_conv list_all_iff)
  then show ?thesis
    using assms
    by (simp add: compressPDF_def compressPDF_with_loaded rebuilt_pages_surviving)
qed

theorem compressPDF_save_options_witness:
  "last (events (compressPDF ex_lib ex_file_unrenderable Less (Some ex_cb) [])) =
     EvSave \<lparr>useObjectStreams = True, addDefaultPage = False\<rparr> \<and>
   result (compressPDF ex_lib ex_file_unrenderable Less (Some ex_cb) []) =
     Inr \<lparr>saved_pages = [], objectStreams = True\<rparr>"
proof -
  have a: "getDocument ex_file_unrenderable = Some ex_doc_unrenderable"
    by (simp add: ex_file_unrenderable_def)
  have g: "surviving_pages ex_lib (compressionSettings Less) ex_doc_unrenderable = []"
    by code_simp
  have "result (compressPDF ex_lib ex_file_unrenderable Less (Some ex_cb) []) \<noteq> Inl SaveFailed"
    using a by (simp add: compressPDF_def compressPDF_with_loaded(1) ex_lib_def)
  then show ?thesis
    using compressPDF_save_options [OF a, of ex_lib Less "Some ex_cb" "[]"]
    unfolding g by simp
qed

text \<open>
  C10. Every preset has the JPEG format. Hence no run of compressPDF ever calls
  \<open>embedPng\<close>, and every image drawn in a returned document was embedded
  through \<open>embedJpg\<close>.
\<close>
theorem compressPDF_never_embeds_png:
  "format (compressionSettings mode) = Jpeg \<and>
   list_all (\<lambda>e. \<not> is_embedPng e) (events (compressPDF lib pdfFile mode onProgress s)) \<and>
   (case result (compressPDF lib pdfFile mode onProgress s) of
      Inl e \<Rightarrow> True
    | Inr saved \<Rightarrow> list_all (\<lambda>pg. list_all is_jpg_op (page_ops pg)) (saved_pages saved))"
proof -
  let ?cs = "compressionSettings mode"
  have ev: "list_all (\<lambda>e. \<not> is_embedPng e) (events (compressPDF lib pdfFile mode onProgress s))"
  proof (cases "getDocument pdfFile")
    case None
    then show ?thesis by (simp add: compressPDF_def compressPDF_with_not_loaded)
  next
    case (Some pdfDocument)
    have "list_all (\<lambda>e. \<not> is_embedPng e)
            (trace (page_loop lib ?cs onProgress pdfDocument (numPages pdfDocument) 1
                     \<lparr>newPdfDoc = [], trace = [], cb = s\<rparr>))"
      by (rule page_loop_no_png [OF preset_format]) simp
    with Some show ?thesis
      by (simp add: compressPDF_def compressPDF_with_loaded(2))
  qed
  have pg: "list_all (\<lambda>pg. list_all is_jpg_op (page_ops pg)) (rebuilt_pages lib ?cs pdfDocument)"
    for pdfDocument
    unfolding rebuilt_pages_surviving list_all_iff
  proof
    fix pg
    assume "pg \<in> set (map (\<lambda>n. the (page_output lib ?cs pdfDocument n))
                        (surviving_pages lib ?cs pdfDocument))"
    then obtain n where n: "page_ok lib ?cs pdfDocument n"
        and pgn: "pg = the (page_output lib ?cs pdfDocument n)"
      by (auto simp: surviving_pages_def)
    from n obtain pg' where "page_output lib ?cs pdfDocument n = Some pg'"
      by (auto simp: page_ok_def split: option.splits)
    with pgn page_output_jpeg [OF this preset_format] show "\<forall>x\<in>set (page_ops pg). is_jpg_op x"
      by auto
  qed
  have res: "(case result (compressPDF lib pdfFile mode onProgress s) of
               Inl e \<Rightarrow> True
             | Inr saved \<Rightarrow> list_all (\<lambda>pg. list_all is_jpg_op (page_ops pg)) (saved_pages saved))"
  proof (cases "getDocument pdfFile")
    case None
    then show ?thesis by (simp add: compressPDF_def compressPDF_with_not_loaded)
  next
    case (Some pdfDocument)
    then show ?thesis
      using pg [of pdfDocument] by (simp add: compressPDF_def compressPDF_with_loaded(1))
  qed
  show ?thesis using ev res preset_format by simp
qed

theorem compressPDF_never_embeds_png_witness:
  "list_all (\<lambda>e. \<not> is_embedPng e)
     (events (compressPDF ex_lib ex_file3 Normal (None :: unit progress_cb option) ())) \<and>
   result (compressPDF ex_lib ex_file3 Normal (None :: unit progress_cb option) ()) =
     Inr \<lparr>saved_pages = rebuilt_pages ex_lib (compressionSettings Normal) ex_doc3,
          objectStreams = True\<rparr> \<and>
   list_all (\<lambda>pg. list_all is_jpg_op (page_ops pg))
     (rebuilt_pages ex_lib (compressionSettings Normal) ex_doc3) \<and>
   length (rebuilt_pages ex_lib (compressionSettings Normal) ex_doc3) = 2"
proof -
  have a: "getDocument ex_file3 = Some ex_doc3" by (simp add: ex_file3_def)
  have r: "result (compressPDF ex_lib ex_file3 Normal (None :: unit progress_cb option) ()) =
             Inr \<lparr>saved_pages = rebuilt_pages ex_lib (compressionSettings Normal) ex_doc3,
                  objectStreams = True\<rparr>"
    using a by (simp add: compressPDF_def compressPDF_with_loaded(1) ex_lib_def)
  have g: "surviving_pages ex_lib (compressionSettings Normal) ex_doc3 = [1, 3]"
    by code_simp
  have l: "length (rebuilt_pages ex_lib (compressionSettings Normal) ex_doc3) = 2"
    unfolding rebuilt_pages_surviving g by simp
  show ?thesis
    using compressPDF_never_embeds_png [of Normal ex_lib ex_file3 None "()"] r l
    by simp
qed

lemma progress_calls_Nil: "progress_calls [] = []"
  by (simp add: progress_calls_def List.map_filter_simps)

lemma progress_calls_save: "progress_calls [EvSave opts] = []"
  by (simp add: progress_calls_def List.map_filter_simps)

lemma compressPDF_progress_calls:
  assumes "getDocument pdfFile = Some pdfDocument"
  shows "progress_calls (events (compressPDF lib pdfFile mode (Some f) s)) =
           map (\<lambda>n. (n, numPages pdfDocument))
             (surviving_pages lib (compressionSettings mode) pdfDocument)"
  using assms
    page_loop_progress [of lib "compressionSettings mode" "Some f" pdfDocument
      "numPages pdfDocument" 1 "\<lparr>newPdfDoc = [], trace = [], cb = s\<rparr>"]
  by (simp add: compressPDF_def compressPDF_with_loaded(2) progress_calls_append
        progress_calls_Nil progress_calls_save surviving_pages_def page_numbers_def
      del: upt_Suc)

text \<open>
  C2 (as the code has it). The progress callback is called once for every page
  that was appended to the new document, and for no other: for a document of N
  pages of which K fail, exactly N - K times, with the current-page argument
  strictly increasing within 1..N and the total-pages argument equal to N in
  every call. When no page fails these are the N calls (1, N), ..., (N, N). Every
  call precedes the one serialization of the document, which is the last event of
  the run.
\<close>
theorem compressPDF_progress_per_kept_page:
  assumes "getDocument pdfFile = Some pdfDocument"
  shows "progress_calls (events (compressPDF lib pdfFile mode (Some f) s)) =
           map (\<lambda>n. (n, numPages pdfDocument))
             (surviving_pages lib (compressionSettings mode) pdfDocument) \<and>
         length (progress_calls (events (compressPDF lib pdfFile mode (Some f) s))) =
           numPages pdfDocument - length (failed_pages lib (compressionSettings mode) pdfDocument) \<and>
         sorted_wrt (<) (map fst (progress_calls (events (compressPDF lib pdfFile mode (Some f) s)))) \<and>
         list_all (\<lambda>(current, tp). 1 \<le> current \<and> current \<le> numPages pdfDocument \<and>
                      tp = numPages pdfDocument)
           (progress_calls (events (compressPDF lib pdfFile mode (Some f) s))) \<and>
         (failed_pages lib (compressionSettings mode) pdfDocument = [] \<longrightarrow>
            progress_calls (events (compressPDF lib pdfFile mode (Some f) s)) =
              map (\<lambda>n. (n, numPages pdfDocument)) [1..<Suc (numPages pdfDocument)]) \<and>
         (\<exists>before opts. events (compressPDF lib pdfFile mode (Some f) s) = before @ [EvSave opts] \<and>
            list_all (\<lambda>e. \<not> is_save e) before)"
proof -
  let ?cs = "compressionSettings mode"
  let ?N = "numPages pdfDocument"
  let ?st = "page_loop lib ?cs (Some f) pdfDocument ?N 1 \<lparr>newPdfDoc = [], trace = [], cb = s\<rparr>"
  let ?ev = "events (compressPDF lib pdfFile mode (Some f) s)"
  let ?sv = "surviving_pages lib ?cs pdfDocument"
  have ev: "?ev = trace ?st @ [EvSave \<lparr>useObjectStreams = True, addDefaultPage = False\<rparr>]"
    using assms by (simp add: compressPDF_def compressPDF_with_loaded(2))
  have calls: "progress_calls ?ev = map (\<lambda>n. (n, ?N)) ?sv"
    using assms by (rule compressPDF_progress_calls)
  have fst: "map fst (progress_calls ?ev) = ?sv"
    by (simp add: calls comp_def)
  have range: "list_all (\<lambda>(current, tp). 1 \<le> current \<and> current \<le> ?N \<and> tp = ?N)
                 (progress_calls ?ev)"
    using surviving_range [of lib ?cs pdfDocument]
    by (auto simp: calls list_all_iff)
  have all: "failed_pages lib ?cs pdfDocument = [] \<longrightarrow>
               progress_calls ?ev = map (\<lambda>n. (n, ?N)) [1..<Suc ?N]"
    using failed_none_surviving_all [of lib ?cs pdfDocument]
    by (simp add: calls page_numbers_def del: upt_Suc)
  have nosave: "list_all (\<lambda>e. \<not> is_save e) (trace ?st)"
    by (rule page_loop_no_save) simp
  have last: "\<exists>before opts. ?ev = before @ [EvSave opts] \<and> list_all (\<lambda>e. \<not> is_save e) before"
    using ev nosave by blast
  show ?thesis
    using calls fst range all last surviving_sorted [of lib ?cs pdfDocument]
    by (simp add: surviving_failed_count)
qed

theorem compressPDF_progress_per_kept_page_witness:
  "progress_calls (events (compressPDF ex_lib ex_file3 Normal (Some ex_cb) [])) = [(1, 3), (3, 3)] \<and>
   failed_pages ex_lib (compressionSettings Normal) ex_doc3 = [2]"
proof -
  have a: "getDocument ex_file3 = Some ex_doc3" by (simp add: ex_file3_def)
  have g: "surviving_pages ex_lib (compressionSettings Normal) ex_doc3 = [1, 3]"
    by code_simp
  have f: "failed_pages ex_lib (compressionSettings Normal) ex_doc3 = [2]"
    by code_simp
  have n: "numPages ex_doc3 = 3" by (simp add: ex_doc3_def)
  show ?thesis
    using compressPDF_progress_per_kept_page [OF a, of ex_lib Normal ex_cb "[]"]
    unfolding g f n by simp
qed

text \<open>
  The claim as stated, N calls for every N-page document, fails on a three-page
  document whose second page does not render: the callback is called for pages 1
  and 3 only.
\<close>

theorem compressPDF_progress_counterexample:
  "getDocument ex_file3 = Some ex_doc3 \<and> numPages ex_doc3 = 3 \<and>
   events (compressPDF ex_lib ex_file3 Normal (Some ex_cb) []) =
     [EvEmbedJpg [255, 216, 255], EvProgress 1 3, EvConsoleError 2 RenderFailed,
      EvEmbedJpg [255, 216, 255], EvProgress 3 3,
      EvSave \<lparr>useObjectStreams = True, addDefaultPage = False\<rparr>] \<and>
   progress_calls (events (compressPDF ex_lib ex_file3 Normal (Some ex_cb) [])) =
     [(1, 3), (3, 3)] \<and>
   length (progress_calls (events (compressPDF ex_lib ex_file3 Normal (Some ex_cb) []))) \<noteq>
     numPages ex_doc3"
proof -
  have a: "getDocument ex_file3 = Some ex_doc3" by (simp add: ex_file3_def)
  have n: "numPages ex_doc3 = 3" by (simp add: ex_doc3_def)
  have e: "events (compressPDF ex_lib ex_file3 Normal (Some ex_cb) []) =
     [EvEmbedJpg [255, 216, 255], EvProgress 1 3, EvConsoleError 2 RenderFailed,
      EvEmbedJpg [255, 216, 255], EvProgress 3 3,
      EvSave \<lparr>useObjectStreams = True, addDefaultPage = False\<rparr>]"
    by code_simp
  have p: "progress_calls (events (compressPDF ex_lib ex_file3 Normal (Some ex_cb) [])) =
     [(1, 3), (3, 3)]"
    by code_simp
  have l: "length (progress_calls (events (compressPDF ex_lib ex_file3 Normal (Some ex_cb) []))) \<noteq>
     numPages ex_doc3"
    by code_simp
  show ?thesis using a n e p l by blast
qed

section \<open>Claims about the presets\<close>

text \<open>
  C3. The three presets are constants: for each of them the scale factor lies in
  (0, 1] and the image quality in [0, 1]. A preset fixes scale, quality and format
  together: two presets that differ differ in both the scale and the quality, and
  a larger scale goes with a larger quality. The extreme preset has scale 0.5 and
  JPEG encoding at quality 0.3. The option cards shown by the compress route list
  the same three modes with the same qualities.
\<close>
theorem compression_presets_fixed:
  "(\<forall>m. 0 < scale (compressionSettings m) \<and> scale (compressionSettings m) \<le> 1 \<and>
        0 \<le> imageQuality (compressionSettings m) \<and> imageQuality (compressionSettings m) \<le> 1) \<and>
   compressionSettings Extreme = \<lparr>imageQuality = 0.3, scale = 0.5, format = Jpeg\<rparr> \<and>
   compressionSettings Normal = \<lparr>imageQuality = 0.6, scale = 0.7, format = Jpeg\<rparr> \<and>
   compressionSettings Less = \<lparr>imageQuality = 0.85, scale = 0.9, format = Jpeg\<rparr> \<and>
   (\<forall>m m'. (scale (compressionSettings m) = scale (compressionSettings m')) = (m = m') \<and>
           (imageQuality (compressionSettings m) = imageQuality (compressionSettings m')) = (m = m') \<and>
           (scale (compressionSettings m) < scale (compressionSettings m')) =
             (imageQuality (compressionSettings m) < imageQuality (compressionSettings m'))) \<and>
   map opt_mode compressionOptions = [Extreme, Normal, Less] \<and>
   map opt_imageQuality compressionOptions =
     map (\<lambda>opt. imageQuality (compressionSettings (opt_mode opt))) compressionOptions"
proof -
  have bounds: "0 < scale (compressionSettings m) \<and> scale (compressionSettings m) \<le> 1 \<and>
        0 \<le> imageQuality (compressionSettings m) \<and> imageQuality (compressionSettings m) \<le> 1"
    for m by (cases m) simp_all
  have together: "(scale (compressionSettings m) = scale (compressionSettings m')) = (m = m') \<and>
           (imageQuality (compressionSettings m) = imageQuality (compressionSettings m')) = (m = m') \<and>
           (scale (compressionSettings m) < scale (compressionSettings m')) =
             (imageQuality (compressionSettings m) < imageQuality (compressionSettings m'))"
    for m m' by (cases m; cases m') simp_all
  have opts: "map opt_mode compressionOptions = [Extreme, Normal, Less] \<and>
     map opt_imageQuality compressionOptions =
       map (\<lambda>opt. imageQuality (compressionSettings (opt_mode opt))) compressionOptions"
    by (simp add: compressionOptions_def)
  show ?thesis
    using bounds together opts by simp
qed

section \<open>Claims about the pending rotations\<close>

lemma newRotation_values:
  "newRotation 0 Clockwise = 90" "newRotation 90 Clockwise = 180"
  "newRotation 180 Clockwise = 270" "newRotation 270 Clockwise = 0"
  "newRotation 0 Counterclockwise = 270" "newRotation 90 Counterclockwise = 0"
  "newRotation 180 Counterclockwise = 90" "newRotation 270 Counterclockwise = 180"
  by (simp_all add: newRotation_def js_rem_def)

lemma newRotation_valid:
  "valid_rotation r \<Longrightarrow> valid_rotation (newRotation r d)"
  by (cases d) (auto simp: valid_rotation_def newRotation_values)

lemma newRotation_inverse:
  "valid_rotation r \<Longrightarrow>
     newRotation (newRotation r Clockwise) Counterclockwise = r \<and>
     newRotation (newRotation r Counterclockwise) Clockwise = r"
  by (auto simp: valid_rotation_def newRotation_values)

lemma valid_rotation_0: "valid_rotation 0"
  by (simp add: valid_rotation_def)

lemma rotate_step_valid:
  "list_all (\<lambda>file. valid_rotation (rotation file)) fs \<Longrightarrow>
   list_all (\<lambda>file. valid_rotation (rotation file)) (rotate_step fs a)"
  by (cases a)
     (auto simp: list_all_iff addFiles_def removeFile_def rotateFile_def rotateAllFiles_def
        resetRotation_def resetAllRotations_def newRotation_valid valid_rotation_0)

lemma rotate_fold_valid:
  "list_all (\<lambda>file. valid_rotation (rotation file)) fs \<Longrightarrow>
   list_all (\<lambda>file. valid_rotation (rotation file)) (foldl rotate_step fs acts)"
  by (induction acts arbitrary: fs) (simp_all add: rotate_step_valid)

lemma rotate_run_valid:
  "list_all (\<lambda>file. valid_rotation (rotation file)) (rotate_run acts)"
  unfolding rotate_run_def by (rule rotate_fold_valid) simp

lemma takeWhile_stops:
  "list_ex P xs \<Longrightarrow> length (takeWhile (\<lambda>x. \<not> P x) xs) < length xs"
  by (induction xs) auto

lemma findIndex_less: "findIndex P xs = Some k \<Longrightarrow> k < length xs"
  by (auto simp: findIndex_def takeWhile_stops split: if_splits)

lemma set_movePage:
  assumes "k < length xs"
  shows "set (movePage k t xs) \<subseteq> set xs"
proof -
  let ?removed = "take k xs @ drop (Suc k) xs"
  have "set (take t ?removed) \<union> set (drop t ?removed) = set ?removed"
    by (metis append_take_drop_id set_append)
  moreover have "set ?removed \<subseteq> set xs"
    using set_take_subset [of k xs] set_drop_subset [of "Suc k" xs] by auto
  moreover have "xs ! k \<in> set xs"
    using assms by (rule nth_mem)
  ultimately show ?thesis
    unfolding movePage_def Let_def by (simp only: set_append) auto
qed

lemma handlePageDrop_valid:
  assumes "pages_valid pdfFile"
  shows "pages_valid (handlePageDrop i j pdfFile)"
proof (cases pdfFile)
  case None
  then show ?thesis by (simp add: handlePageDrop_def pages_valid_def)
next
  case (Some pgs)
  with assms have v: "\<forall>pg\<in>set pgs. valid_rotation (op_rotation pg)"
    by (simp add: pages_valid_def list_all_iff)
  have "\<forall>pg\<in>set (movePage k t pgs). valid_rotation (op_rotation pg)"
    if "findIndex (\<lambda>p. op_id p = i) pgs = Some k" for k t
    using set_movePage [OF findIndex_less [OF that], of t] v by blast
  with Some v show ?thesis
    by (simp add: handlePageDrop_def pages_valid_def list_all_iff split: option.splits)
qed

lemma organize_step_valid:
  "pages_valid pdfFile \<Longrightarrow> pages_valid (organize_step pdfFile a)"
proof (cases a)
  case (PageDrop i j)
  assume "pages_valid pdfFile"
  then show ?thesis
    unfolding PageDrop organize_step.simps by (rule handlePageDrop_valid)
qed (cases pdfFile;
     auto simp: pages_valid_def list_all_iff newPages_def loadPdfFile_def handleAddPages_def
        rotatePage_def deletePage_def restorePage_def newRotation_valid valid_rotation_0)+

lemma organize_fold_valid:
  "pages_valid pdfFile \<Longrightarrow> pages_valid (foldl organize_step pdfFile acts)"
  by (induction acts arbitrary: pdfFile) (simp_all add: organize_step_valid)

lemma organize_run_valid: "pages_valid (organize_run acts)"
  unfolding organize_run_def by (rule organize_fold_valid) (simp add: pages_valid_def)

lemma rotateFile_back:
  assumes "list_all (\<lambda>file. valid_rotation (rotation file)) fs"
  shows "rotateFile i Counterclockwise (rotateFile i Clockwise fs) = fs"
  using assms
  by (induction fs) (auto simp: rotateFile_def newRotation_inverse)

lemma rotatePage_back:
  assumes "pages_valid pdfFile"
  shows "rotatePage i Counterclockwise (rotatePage i Clockwise pdfFile) = pdfFile"
proof (cases pdfFile)
  case None
  then show ?thesis by (simp add: rotatePage_def)
next
  case (Some pgs)
  with assms have "list_all (\<lambda>pg. valid_rotation (op_rotation pg)) pgs"
    by (simp add: pages_valid_def)
  then have "map (\<lambda>pg. if op_id pg = i
                 then pg\<lparr>op_rotation := newRotation (op_rotation pg) Counterclockwise\<rparr> else pg)
              (map (\<lambda>pg. if op_id pg = i
                 then pg\<lparr>op_rotation := newRotation (op_rotation pg) Clockwise\<rparr> else pg) pgs) = pgs"
    by (induction pgs) (auto simp: newRotation_inverse)
  with Some show ?thesis by (simp add: rotatePage_def)
qed

text \<open>
  C9. A file added to the rotate route, and a page loaded or added by the
  organize route, starts with rotation 0. Each rotation step computes
  \<open>(rotation \<plusminus> 90 + 360) % 360\<close>, and after any sequence of actions of
  either route every pending rotation is one of 0, 90, 180, 270. On such a value a
  clockwise step followed by a counterclockwise step gives the value back, so on
  every reachable state rotating a file (or page) clockwise and then
  counterclockwise leaves the state as it was.
\<close>
theorem pending_rotation_stays_valid:
  "map rotation (addFiles loaded prev) = map rotation prev @ replicate (length loaded) 0 \<and>
   map op_rotation (newPages ids) = replicate (length ids) 0 \<and>
   list_all (\<lambda>file. valid_rotation (rotation file)) (rotate_run acts) \<and>
   pages_valid (organize_run oacts) \<and>
   (\<forall>r d. newRotation r d = js_rem (r + (if d = Clockwise then 90 else - 90) + 360) 360) \<and>
   (\<forall>r. valid_rotation r \<longrightarrow> newRotation (newRotation r Clockwise) Counterclockwise = r) \<and>
   rotateFile i Counterclockwise (rotateFile i Clockwise (rotate_run acts)) = rotate_run acts \<and>
   rotatePage i Counterclockwise (rotatePage i Clockwise (organize_run oacts)) = organize_run oacts"
proof -
  have a: "map rotation (addFiles loaded prev) = map rotation prev @ replicate (length loaded) 0"
    by (simp add: addFiles_def comp_def case_prod_beta map_replicate_const)
  have b: "map op_rotation (newPages ids) = replicate (length ids) 0"
    by (simp add: newPages_def comp_def map_replicate_const)
  show ?thesis
    using a b rotate_run_valid [of acts] organize_run_valid [of oacts]
      rotateFile_back [OF rotate_run_valid, of i acts]
      rotatePage_back [OF organize_run_valid, of i oacts]
    by (simp add: newRotation_inverse) (simp add: newRotation_def)
qed

theorem pending_rotation_stays_valid_witness:
  "valid_rotation 0 \<and> newRotation (newRotation 0 Clockwise) Counterclockwise = 0 \<and>
   map rotation (rotate_run [AddFiles [(''a'', ''a.pdf'', 10, 2), (''b'', ''b.pdf'', 20, 1)],
                             DoRotateFile ''a'' Counterclockwise,
                             DoRotateAllFiles Clockwise,
                             DoRotateFile ''b'' Clockwise]) = [0, 180] \<and>
   list_all (\<lambda>file. valid_rotation (rotation file))
     (rotate_run [AddFiles [(''a'', ''a.pdf'', 10, 2), (''b'', ''b.pdf'', 20, 1)],
                  DoRotateFile ''a'' Counterclockwise,
                  DoRotateAllFiles Clockwise,
                  DoRotateFile ''b'' Clockwise]) \<and>
   map_option (map op_rotation)
     (organize_run [LoadPdfFile [''p'', ''q''], RotatePage ''p'' Counterclockwise,
                    PageDrop ''p'' ''q'', AddPages [''r''], RotatePage ''q'' Clockwise,
                    RotatePage ''q'' Clockwise]) = Some [180, 270, 0] \<and>
   pages_valid
     (organize_run [LoadPdfFile [''p'', ''q''], RotatePage ''p'' Counterclockwise,
                    PageDrop ''p'' ''q'', AddPages [''r''], RotatePage ''q'' Clockwise,
                    RotatePage ''q'' Clockwise])"
proof -
  have v: "valid_rotation 0" by (simp add: valid_rotation_def)
  have m: "map rotation (rotate_run [AddFiles [(''a'', ''a.pdf'', 10, 2), (''b'', ''b.pdf'', 20, 1)],
                             DoRotateFile ''a'' Counterclockwise,
                             DoRotateAllFiles Clockwise,
                             DoRotateFile ''b'' Clockwise]) = [0, 180]"
    by code_simp
  have n: "map_option (map op_rotation)
     (organize_run [LoadPdfFile [''p'', ''q''], RotatePage ''p'' Counterclockwise,
                    PageDrop ''p'' ''q'', AddPages [''r''], RotatePage ''q'' Clockwise,
                    RotatePage ''q'' Clockwise]) = Some [180, 270, 0]"
    by code_simp
  note t = pending_rotation_stays_valid
      [of "[]" "[]" "[]"
          "[AddFiles [(''a'', ''a.pdf'', 10, 2), (''b'', ''b.pdf'', 20, 1)],
            DoRotateFile ''a'' Counterclockwise, DoRotateAllFiles Clockwise,
            DoRotateFile ''b'' Clockwise]"
          "[LoadPdfFile [''p'', ''q''], RotatePage ''p'' Counterclockwise,
            PageDrop ''p'' ''q'', AddPages [''r''], RotatePage ''q'' Clockwise,
            RotatePage ''q'' Clockwise]" "''a''"]
  from t v have i: "newRotation (newRotation 0 Clockwise) Counterclockwise = 0"
    by blast
  from t have l: "list_all (\<lambda>file. valid_rotation (rotation file))
     (rotate_run [AddFiles [(''a'', ''a.pdf'', 10, 2), (''b'', ''b.pdf'', 20, 1)],
                  DoRotateFile ''a'' Counterclockwise,
                  DoRotateAllFiles Clockwise,
                  DoRotateFile ''b'' Clockwise])"
    by blast
  from t have o: "pages_valid
     (organize_run [LoadPdfFile [''p'', ''q''], RotatePage ''p'' Counterclockwise,
                    PageDrop ''p'' ''q'', AddPages [''r''], RotatePage ''q'' Clockwise,
                    RotatePage ''q'' Clockwise])"
    by blast
  show ?thesis
    using v i m l n o by blast
qed

section \<open>Claims about the routes\<close>

text \<open>
  C6. With no file selected, \<open>compressPDFs\<close> only raises its alert; with
  fewer than two files selected, \<open>mergePDFs\<close> only raises its alert. In both
  cases the function returns at once: the file list, the busy flag, the downloads
  and the list of opened files are as before, so no document was opened.
\<close>
theorem insufficient_selection_rejected:
  "(length (pdfFiles ui) = 0 \<longrightarrow>
      compressPDFs lib mode ui =
        ui\<lparr>alerts := alerts ui @ [''Please select at least 1 PDF file to compress'']\<rparr>) \<and>
   (length (pdfFiles mui) < 2 \<longrightarrow>
      mergePDFs mlib now mui =
        mui\<lparr>alerts := alerts mui @ [''Please select at least 2 PDF files to merge'']\<rparr>)"
  by (simp add: compressPDFs_def mergePDFs_def)

theorem insufficient_selection_rejected_witness:
  "length (pdfFiles ex_none_selected) = 0 \<and>
   compressPDFs ex_lib Normal ex_none_selected =
     \<lparr>pdfFiles = [], isProcessing = False,
      alerts = [''Please select at least 1 PDF file to compress''], downloads = [], opened = []\<rparr> \<and>
   length (pdfFiles (ex_merge [ex_mfile ''a'' [ex_mpage 1]])) < 2 \<and>
   mergePDFs ex_mlib ''0'' (ex_merge [ex_mfile ''a'' [ex_mpage 1]]) =
     \<lparr>pdfFiles = [ex_mfile ''a'' [ex_mpage 1]], isProcessing = False,
      alerts = [''Please select at least 2 PDF files to merge''], downloads = [], opened = []\<rparr>"
  using insufficient_selection_rejected
    [of ex_none_selected ex_lib Normal "ex_merge [ex_mfile ''a'' [ex_mpage 1]]" ex_mlib "''0''"]
  by (simp add: ex_none_selected_def ex_merge_def)

section \<open>The batch loop of the compress route\<close>

lemma compressPDF_result_any_callback:
  "result (compressPDF lib pdfFile mode onProgress s) =
   result (compressPDF lib pdfFile mode onProgress' s')"
  by (cases "getDocument pdfFile")
     (simp_all add: compressPDF_def compressPDF_with_not_loaded compressPDF_with_loaded(1))

lemma compress_outcome_cases:
  "compress_outcome lib mode pdfFile =
     (case getDocument (pf_file pdfFile) of
        None \<Rightarrow> Inl LoadFailed
      | Some pdfDocument \<Rightarrow>
         (if save_resolves lib (rebuilt_pages lib (compressionSettings mode) pdfDocument)
          then Inr \<lparr>saved_pages = rebuilt_pages lib (compressionSettings mode) pdfDocument,
                    objectStreams = True\<rparr>
          else Inl SaveFailed))"
  by (cases "getDocument (pf_file pdfFile)")
     (simp_all add: compress_outcome_def compressPDF_def compressPDF_with_not_loaded
        compressPDF_with_loaded(1))

lemma handleCompressPDF_result:
  "result (handleCompressPDF lib mode pdfFile ui) = compress_outcome lib mode pdfFile"
  unfolding handleCompressPDF_def compress_outcome_def
  by (rule compressPDF_result_any_callback)

lemma id_status_progress:
  "id_status (map (\<lambda>f. if pf_id f = i then f\<lparr>progress := p\<rparr> else f) fs) = id_status fs"
  by (induction fs) (simp_all add: id_status_def)

lemma id_status_set:
  "id_status (map (\<lambda>f. if pf_id f = i then f\<lparr>status := st\<rparr> else f) fs) =
     map (\<lambda>(j, t). (j, if j = i then st else t)) (id_status fs)"
  by (induction fs) (simp_all add: id_status_def)

lemma id_status_set_size:
  "id_status (map (\<lambda>f. if pf_id f = i then f\<lparr>compressedSize := c, status := st\<rparr> else f) fs) =
     map (\<lambda>(j, t). (j, if j = i then st else t)) (id_status fs)"
  by (induction fs) (simp_all add: id_status_def)

lemma handleCompressPDF_frame:
  "same_but_progress (cb_after (handleCompressPDF lib mode pdfFile ui)) ui"
proof (cases "getDocument (pf_file pdfFile)")
  case None
  then show ?thesis
    by (simp add: handleCompressPDF_def compressPDF_def compressPDF_with_not_loaded
          same_but_progress_def)
next
  case (Some pdfDocument)
  have "same_but_progress
          (cb (page_loop lib (compressionSettings mode)
                 (Some (\<lambda>current totalPages u.
                    (let percent = nat \<lfloor>(of_nat current / of_nat totalPages) * (100 :: rat)\<rfloor>
                     in Some (u\<lparr>pdfFiles :=
                          map (\<lambda>f. if pf_id f = pf_id pdfFile then f\<lparr>progress := Some percent\<rparr> else f)
                            (pdfFiles u)\<rparr>))))
                 pdfDocument (numPages pdfDocument) 1
                 \<lparr>newPdfDoc = [], trace = [], cb = ui\<rparr>)) ui"
    by (rule page_loop_cb [where P = "\<lambda>u. same_but_progress u ui"])
       (auto simp: same_but_progress_def Let_def id_status_progress)
  with Some show ?thesis
    by (simp add: handleCompressPDF_def compressPDF_def compressPDF_with_loaded(3))
qed

lemma find_absent:
  "i \<notin> set (map pf_id fs) \<Longrightarrow> find (\<lambda>p. pf_id p = i) fs = None"
  by (induction fs) auto

lemma find_present:
  "distinct (map pf_id fs) \<Longrightarrow> g \<in> set fs \<Longrightarrow> find (\<lambda>p. pf_id p = pf_id g) fs = Some g"
  by (induction fs) (auto simp: rev_image_eqI)

lemma expected_downloads_Cons:
  "expected_downloads lib mode (f # fs) =
     (case compress_outcome lib mode f of
        Inl e \<Rightarrow> []
      | Inr b \<Rightarrow> [(''compressed-'' @ pf_name f, b)]) @ expected_downloads lib mode fs"
  by (simp add: expected_downloads_def List.map_filter_simps split: sum.splits)

lemma compress_each_effect:
  assumes "distinct (map pf_id rest)"
  shows "id_status (pdfFiles (compress_each lib mode rest ui)) =
           map (\<lambda>(j, t). (j, case find (\<lambda>p. pf_id p = j) rest of
                                None \<Rightarrow> t | Some p \<Rightarrow> final_status lib mode p))
             (id_status (pdfFiles ui)) \<and>
         downloads (compress_each lib mode rest ui) =
           downloads ui @ expected_downloads lib mode rest \<and>
         opened (compress_each lib mode rest ui) = opened ui @ map pf_id rest \<and>
         isProcessing (compress_each lib mode rest ui) = isProcessing ui \<and>
         alerts (compress_each lib mode rest ui) = alerts ui"
  using assms
proof (induction rest arbitrary: ui)
  case Nil
  then show ?case
    by (simp add: expected_downloads_def List.map_filter_simps case_prod_beta)
next
  case (Cons pdfFile rest)
  let ?ui1 = "ui\<lparr>pdfFiles :=
                 map (\<lambda>f. if pf_id f = pf_id pdfFile then f\<lparr>status := Processing\<rparr> else f)
                   (pdfFiles ui),
               opened := opened ui @ [pf_id pdfFile]\<rparr>"
  let ?r = "handleCompressPDF lib mode pdfFile ?ui1"
  let ?ui2 = "cb_after ?r"
  let ?next = "(case result ?r of
             Inr compressedBytes \<Rightarrow>
               (let csize = byteLength lib compressedBytes;
                    ui3 = ?ui2\<lparr>pdfFiles :=
                      map (\<lambda>f. if pf_id f = pf_id pdfFile
                                then f\<lparr>compressedSize := Some csize, status := Completed\<rparr>
                                else f)
                        (pdfFiles ?ui2)\<rparr>
                in ui3\<lparr>downloads := downloads ui3 @
                          [(''compressed-'' @ pf_name pdfFile, compressedBytes)]\<rparr>)
           | Inl e \<Rightarrow>
               ?ui2\<lparr>pdfFiles :=
                 map (\<lambda>f. if pf_id f = pf_id pdfFile then f\<lparr>status := Error\<rparr> else f)
                   (pdfFiles ?ui2)\<rparr>)"
  have step: "compress_each lib mode (pdfFile # rest) ui = compress_each lib mode rest ?next"
    by (simp add: Let_def)
  have frame: "same_but_progress ?ui2 ?ui1"
    by (rule handleCompressPDF_frame)
  have res: "result ?r = compress_outcome lib mode pdfFile"
    by (rule handleCompressPDF_result)
  have ids: "id_status (pdfFiles ?next) =
               map (\<lambda>(j, t). (j, if j = pf_id pdfFile then final_status lib mode pdfFile else t))
                 (id_status (pdfFiles ui))"
    using frame
    by (cases "compress_outcome lib mode pdfFile")
       (simp_all add: res same_but_progress_def final_status_def Let_def id_status_set
          id_status_set_size case_prod_beta)
  have dl: "downloads ?next =
              downloads ui @ (case compress_outcome lib mode pdfFile of
                                Inl e \<Rightarrow> []
                              | Inr b \<Rightarrow> [(''compressed-'' @ pf_name pdfFile, b)])"
    using frame
    by (cases "compress_outcome lib mode pdfFile")
       (simp_all add: res same_but_progress_def Let_def)
  have other: "opened ?next = opened ui @ [pf_id pdfFile]"
      "isProcessing ?next = isProcessing ui" "alerts ?next = alerts ui"
    using frame
    by (cases "compress_outcome lib mode pdfFile";
        simp add: res same_but_progress_def Let_def)+
  from Cons.prems have d: "distinct (map pf_id rest)" and a: "pf_id pdfFile \<notin> set (map pf_id rest)"
    by simp_all
  note ih = Cons.IH [OF d, of ?next]
  have "map (\<lambda>(j, t). (j, case find (\<lambda>p. pf_id p = j) rest of
                                None \<Rightarrow> t | Some p \<Rightarrow> final_status lib mode p))
          (id_status (pdfFiles ?next)) =
        map (\<lambda>(j, t). (j, case find (\<lambda>p. pf_id p = j) (pdfFile # rest) of
                                None \<Rightarrow> t | Some p \<Rightarrow> final_status lib mode p))
          (id_status (pdfFiles ui))"
    using find_absent [OF a]
    by (simp add: ids case_prod_beta)
  with ih show ?case
    unfolding step
    by (simp add: dl other expected_downloads_Cons)
qed

text \<open>
  C4. In a batch whose entries have distinct identifiers, every document is
  processed, in the order of the list, whatever happened to the documents before
  it. A document for which compressPDF throws (the file does not open, or the new
  document does not serialize) ends with status \<open>Error\<close> and gets no
  download; every other document ends with status \<open>Completed\<close> and gets
  exactly one download, and the downloads come in the order of the list.
\<close>
theorem compressPDFs_isolates_failures:
  assumes "pdfFiles ui \<noteq> []" and "distinct (map pf_id (pdfFiles ui))"
  shows "map pf_id (pdfFiles (compressPDFs lib mode ui)) = map pf_id (pdfFiles ui) \<and>
         map status (pdfFiles (compressPDFs lib mode ui)) =
           map (\<lambda>f. case compress_outcome lib mode f of
                       Inl e \<Rightarrow> Error | Inr b \<Rightarrow> Completed) (pdfFiles ui) \<and>
         downloads (compressPDFs lib mode ui) =
           downloads ui @
           List.map_filter
             (\<lambda>f. case compress_outcome lib mode f of
                     Inl e \<Rightarrow> None
                   | Inr b \<Rightarrow> Some (''compressed-'' @ pf_name f, b))
             (pdfFiles ui) \<and>
         opened (compressPDFs lib mode ui) = opened ui @ map pf_id (pdfFiles ui) \<and>
         isProcessing (compressPDFs lib mode ui) = False"
proof -
  let ?fs = "pdfFiles ui"
  let ?ui1 = "ui\<lparr>isProcessing := True\<rparr>"
  let ?out = "compress_each lib mode ?fs ?ui1"
  have c: "compressPDFs lib mode ui = ?out\<lparr>isProcessing := False\<rparr>"
    using assms(1) by (simp add: compressPDFs_def Let_def)
  note e = compress_each_effect [OF assms(2), of lib mode ?ui1]
  have "map (\<lambda>(j, t). (j, case find (\<lambda>p. pf_id p = j) ?fs of
                                None \<Rightarrow> t | Some p \<Rightarrow> final_status lib mode p))
          (id_status ?fs) =
        map (\<lambda>f. (pf_id f, final_status lib mode f)) ?fs"
    using find_present [OF assms(2)]
    by (simp add: id_status_def)
  with e have idst: "id_status (pdfFiles ?out) = map (\<lambda>f. (pf_id f, final_status lib mode f)) ?fs"
    by simp
  have "map fst (id_status (pdfFiles ?out)) = map pf_id (pdfFiles ?out)"
       "map snd (id_status (pdfFiles ?out)) = map status (pdfFiles ?out)"
    by (simp_all add: id_status_def comp_def)
  with idst have ids: "map pf_id (pdfFiles ?out) = map pf_id ?fs"
    and sts: "map status (pdfFiles ?out) = map (final_status lib mode) ?fs"
    by (simp_all add: comp_def)
  have fs: "final_status lib mode = (\<lambda>f. case compress_outcome lib mode f of
                       Inl e \<Rightarrow> Error | Inr b \<Rightarrow> Completed)"
    by (simp add: fun_eq_iff final_status_def)
  show ?thesis
    using e ids sts
    by (simp add: c fs expected_downloads_def)
qed


theorem compressPDFs_isolates_failures_witness:
  "pdfFiles ex_batch \<noteq> [] \<and> distinct (map pf_id (pdfFiles ex_batch)) \<and>
   compress_outcome ex_lib Normal (ex_pdfFile ''a'' ex_file_broken) = Inl LoadFailed \<and>
   map status (pdfFiles (compressPDFs ex_lib Normal ex_batch)) = [Error, Completed] \<and>
   map fst (downloads (compressPDFs ex_lib Normal ex_batch)) = [''compressed-three.pdf''] \<and>
   opened (compressPDFs ex_lib Normal ex_batch) = [''a'', ''b'']"
proof -
  have fs: "pdfFiles ex_batch = [ex_pdfFile ''a'' ex_file_broken, ex_pdfFile ''b'' ex_file3]"
    by (simp add: ex_batch_def)
  have n: "pdfFiles ex_batch \<noteq> []"
    by (simp add: fs)
  have d: "distinct (map pf_id (pdfFiles ex_batch))"
    by (simp add: fs ex_pdfFile_def)
  have a: "compress_outcome ex_lib Normal (ex_pdfFile ''a'' ex_file_broken) = Inl LoadFailed"
    by code_simp
  have "(case compress_outcome ex_lib Normal (ex_pdfFile ''b'' ex_file3) of
           Inl e \<Rightarrow> False | Inr b \<Rightarrow> True)"
    by code_simp
  then obtain saved where b: "compress_outcome ex_lib Normal (ex_pdfFile ''b'' ex_file3) = Inr saved"
    by (auto split: sum.splits)
  have nm: "pf_name (ex_pdfFile ''b'' ex_file3) = ''three.pdf''"
    by (simp add: ex_pdfFile_def ex_file3_def)
  have o: "opened ex_batch = []" "downloads ex_batch = []"
    by (simp_all add: ex_batch_def)
  show ?thesis
    using compressPDFs_isolates_failures [OF n d, of ex_lib Normal] n d a
    by (simp add: fs a b nm o List.map_filter_simps) (simp add: ex_pdfFile_def)
qed

section \<open>The merge route\<close>

lemma copyPages_all: "copyPages pdf (getPageIndices pdf) = pdf"
  by (simp add: copyPages_def getPageIndices_def map_nth)

lemma foldl_addCopiedPage: "foldl addCopiedPage doc pgs = doc @ pgs"
  by (induction pgs arbitrary: doc) (simp_all add: addCopiedPage_def)

lemma merge_each_loaded:
  assumes "list_all (\<lambda>f. load f \<noteq> None) fs"
  shows "merge_each fs mergedPdf ui =
           (Inr (mergedPdf @ merged_pages fs), ui\<lparr>opened := opened ui @ map mf_id fs\<rparr>)"
  using assms
proof (induction fs arbitrary: mergedPdf ui)
  case Nil
  then show ?case by (simp add: merged_pages_def)
next
  case (Cons f fs)
  then obtain pdf where "load f = Some pdf" by auto
  with Cons show ?case
    by (simp add: merged_pages_def copyPages_all foldl_addCopiedPage)
qed

lemma length_merged_pages:
  "length (merged_pages fs) = sum_list (map page_count fs)"
  by (induction fs) (simp_all add: merged_pages_def page_count_def split: option.splits)

text \<open>
  C8 (as the code has it). For a list of at least two files that pdf-lib loads,
  and whose merged document serializes, mergePDFs starts exactly one download.
  The merged document holds, for each input in list order, all the pages of that
  input in their order; when the inputs have at least one page in total this is
  the whole output, whose page count is the sum of the inputs' page counts. When
  all inputs are empty, \<open>save()\<close> with its default options adds one blank
  page, and the output has that single page.
\<close>
theorem mergePDFs_concatenates:
  assumes "2 \<le> length (pdfFiles ui)"
    and "list_all (\<lambda>f. load f \<noteq> None) (pdfFiles ui)"
    and "save_resolves lib (prepareForSave defaultSaveOptions (merged_pages (pdfFiles ui)))"
  shows "\<exists>saved.
           downloads (mergePDFs lib now ui) =
             downloads ui @ [(''merged-'' @ now @ ''.pdf'', saved)] \<and>
           saved_pages saved =
             (if merged_pages (pdfFiles ui) = []
              then [\<lparr>page_size = (595.28, 841.89), page_ops = []\<rparr>]
              else merged_pages (pdfFiles ui)) \<and>
           (0 < sum_list (map page_count (pdfFiles ui)) \<longrightarrow>
              saved_pages saved = merged_pages (pdfFiles ui) \<and>
              length (saved_pages saved) = sum_list (map page_count (pdfFiles ui))) \<and>
           merged_pages (pdfFiles ui) = concat (map (\<lambda>f. the (load f)) (pdfFiles ui))"
proof -
  let ?fs = "pdfFiles ui"
  let ?all = "merged_pages ?fs"
  let ?saved = "\<lparr>saved_pages = prepareForSave defaultSaveOptions ?all, objectStreams = True\<rparr>"
  have m: "merge_each ?fs [] (ui\<lparr>isProcessing := True\<rparr>) =
             (Inr ?all, ui\<lparr>isProcessing := True, opened := opened ui @ map mf_id ?fs\<rparr>)"
    using merge_each_loaded [OF assms(2), of "[]" "ui\<lparr>isProcessing := True\<rparr>"] by simp
  have s: "save lib defaultSaveOptions ?all = Inr ?saved"
    using assms(3) by (simp add: save_def Let_def defaultSaveOptions_def)
  have dl: "downloads (mergePDFs lib now ui) = downloads ui @ [(''merged-'' @ now @ ''.pdf'', ?saved)]"
    using assms(1) by (simp add: mergePDFs_def m s Let_def)
  have pages: "saved_pages ?saved =
                 (if ?all = [] then [\<lparr>page_size = (595.28, 841.89), page_ops = []\<rparr>] else ?all)"
    by (simp add: prepareForSave_def defaultSaveOptions_def addPage_def)
  have "0 < sum_list (map page_count ?fs) \<longrightarrow> ?all \<noteq> []"
    by (metis length_greater_0_conv length_merged_pages)
  then have pos: "0 < sum_list (map page_count ?fs) \<longrightarrow>
              saved_pages ?saved = ?all \<and> length (saved_pages ?saved) = sum_list (map page_count ?fs)"
    using pages length_merged_pages [of ?fs] by auto
  have "map (\<lambda>f. case load f of None \<Rightarrow> [] | Some pdf \<Rightarrow> pdf) ?fs = map (\<lambda>f. the (load f)) ?fs"
    using assms(2) by (auto simp: list_all_iff)
  then have cat: "?all = concat (map (\<lambda>f. the (load f)) ?fs)"
    unfolding merged_pages_def by (rule arg_cong [where f = concat])
  show ?thesis
    by (intro exI [of _ ?saved] conjI dl pages pos cat)
qed

theorem mergePDFs_concatenates_witness:
  "2 \<le> length (pdfFiles (ex_merge [ex_mfile ''a'' [ex_mpage 10], ex_mfile ''b'' [ex_mpage 20, ex_mpage 30]])) \<and>
   (\<exists>saved.
      downloads (mergePDFs ex_mlib ''0''
          (ex_merge [ex_mfile ''a'' [ex_mpage 10], ex_mfile ''b'' [ex_mpage 20, ex_mpage 30]])) =
        [(''merged-0.pdf'', saved)] \<and>
      saved_pages saved = [ex_mpage 10, ex_mpage 20, ex_mpage 30])"
proof -
  let ?ui = "ex_merge [ex_mfile ''a'' [ex_mpage 10], ex_mfile ''b'' [ex_mpage 20, ex_mpage 30]]"
  have fs: "pdfFiles ?ui = [ex_mfile ''a'' [ex_mpage 10], ex_mfile ''b'' [ex_mpage 20, ex_mpage 30]]"
    by (simp add: ex_merge_def)
  have a: "2 \<le> length (pdfFiles ?ui)"
    by (simp add: fs)
  have b: "list_all (\<lambda>f. load f \<noteq> None) (pdfFiles ?ui)"
    unfolding fs by (simp add: ex_mfile_def)
  have c: "save_resolves ex_mlib (prepareForSave defaultSaveOptions (merged_pages (pdfFiles ?ui)))"
    by (simp add: ex_mlib_def)
  have mp: "merged_pages (pdfFiles ?ui) = [ex_mpage 10, ex_mpage 20, ex_mpage 30]"
    unfolding fs by (simp add: merged_pages_def ex_mfile_def)
  have d: "downloads ?ui = []"
    by (simp add: ex_merge_def)
  show ?thesis
    using mergePDFs_concatenates [OF a b c, of "''0''"] a
    unfolding mp d by auto
qed

text \<open>
  The claim as stated fails for two documents without pages: the sum of the page
  counts is 0, the merged output has one page.
\<close>

theorem mergePDFs_page_count_counterexample:
  "length (pdfFiles (ex_merge [ex_mfile ''a'' [], ex_mfile ''b'' []])) = 2 \<and>
   map page_count (pdfFiles (ex_merge [ex_mfile ''a'' [], ex_mfile ''b'' []])) = [0, 0] \<and>
   map (\<lambda>(n, saved). length (saved_pages saved))
     (downloads (mergePDFs ex_mlib ''0'' (ex_merge [ex_mfile ''a'' [], ex_mfile ''b'' []]))) = [1]"
proof -
  have a: "length (pdfFiles (ex_merge [ex_mfile ''a'' [], ex_mfile ''b'' []])) = 2"
    by code_simp
  have b: "map page_count (pdfFiles (ex_merge [ex_mfile ''a'' [], ex_mfile ''b'' []])) = [0, 0]"
    by code_simp
  have c: "map (\<lambda>(n, saved). length (saved_pages saved))
     (downloads (mergePDFs ex_mlib ''0'' (ex_merge [ex_mfile ''a'' [], ex_mfile ''b'' []]))) = [1]"
    by code_simp
  show ?thesis using a b c by blast
qed

end
